theory Spec2Isabelle
  imports Main
begin

section \<open>JavaScript values\<close>

text \<open>
  The values that flow through \<^verbatim>\<open>src/lib/auth/auth.js\<close>: users, tokens, endpoint
  descriptions, route paths and errors are untyped JavaScript values. Numbers are
  restricted to integers; objects are property lists in insertion order; an \<open>Error\<close>
  object carries its name and its message. Values are compared structurally, so object
  identity is not represented.
\<close>

datatype jsval =
    JUndefined
  | JNull
  | JBool bool
  | JNum int
  | JStr string
  | JArr "jsval list"
  | JObj "(string \<times> jsval) list"
  | JError string string

text \<open>\<open>Boolean(v)\<close>, which is also what \<open>!v\<close>, \<open>v && w\<close> and \<open>if (v)\<close> test.\<close>

fun truthy :: "jsval \<Rightarrow> bool" where
  "truthy JUndefined = False"
| "truthy JNull = False"
| "truthy (JBool b) = b"
| "truthy (JNum n) = (n \<noteq> 0)"
| "truthy (JStr s) = (s \<noteq> [])"
| "truthy (JArr xs) = True"
| "truthy (JObj ps) = True"
| "truthy (JError n m) = True"

text \<open>\<open>typeof v === 'object'\<close>: true of \<open>null\<close>, arrays, plain objects and errors.\<close>

fun typeof_object :: "jsval \<Rightarrow> bool" where
  "typeof_object JNull = True"
| "typeof_object (JArr xs) = True"
| "typeof_object (JObj ps) = True"
| "typeof_object (JError n m) = True"
| "typeof_object v = False"

text \<open>Decimal digits of a natural number, for the string form of a number.\<close>

function show_nat :: "nat \<Rightarrow> string" where
  "show_nat n =
     (if n < 10 then [''0123456789'' ! n]
      else show_nat (n div 10) @ [''0123456789'' ! (n mod 10)])"
  by pat_completeness auto
termination
  by (relation "measure id") auto

fun join_comma :: "string list \<Rightarrow> string" where
  "join_comma [] = []"
| "join_comma [x] = x"
| "join_comma (x # y # ys) = x @ '','' @ join_comma (y # ys)"

text \<open>
  The string a value is coerced to when it is used as a property key or concatenated to
  a string (\<open>this.strategies[v]\<close>, \<open>prefix + v\<close>).
\<close>

fun js_to_string :: "jsval \<Rightarrow> string" where
  "js_to_string JUndefined = ''undefined''"
| "js_to_string JNull = ''null''"
| "js_to_string (JBool b) = (if b then ''true'' else ''false'')"
| "js_to_string (JNum n) = (if n < 0 then ''-'' @ show_nat (nat (- n)) else show_nat (nat n))"
| "js_to_string (JStr s) = s"
| "js_to_string (JArr xs) =
     join_comma (map (\<lambda>x. if x = JUndefined \<or> x = JNull then [] else js_to_string x) xs)"
| "js_to_string (JObj ps) = ''[object Object]''"
| "js_to_string (JError n m) = (if m = [] then n else n @ '': '' @ m)"

text \<open>Own properties of an object, as a property list; later writes replace in place.\<close>

fun obj_get :: "(string \<times> jsval) list \<Rightarrow> string \<Rightarrow> jsval" where
  "obj_get [] k = JUndefined"
| "obj_get ((k', v) # ps) k = (if k' = k then v else obj_get ps k)"

fun obj_set :: "(string \<times> jsval) list \<Rightarrow> string \<Rightarrow> jsval \<Rightarrow> (string \<times> jsval) list" where
  "obj_set [] k v = [(k, v)]"
| "obj_set ((k', v') # ps) k v = (if k' = k then (k, v) # ps else (k', v') # obj_set ps k v)"

text \<open>
  The error raised by reading property \<open>k\<close> of \<open>undefined\<close> or \<open>null\<close>, or by writing a
  property of a primitive in strict mode. The message differs between engines; it is
  represented by the property name.
\<close>

definition type_error :: "string \<Rightarrow> jsval" where
  "type_error k = JError ''TypeError'' k"

text \<open>
  The property read \<open>v.k\<close> for the names this module reads (\<open>data\<close>, \<open>propertyName\<close>,
  \<open>headers\<close>, \<open>Authorization\<close>): \<open>Inl\<close> is the exception thrown.
\<close>

fun js_get :: "jsval \<Rightarrow> string \<Rightarrow> jsval + jsval" where
  "js_get JUndefined k = Inl (type_error k)"
| "js_get JNull k = Inl (type_error k)"
| "js_get (JObj ps) k = Inr (obj_get ps k)"
| "js_get v k = Inr JUndefined"

text \<open>
  The own enumerable properties \<open>Object.assign\<close> copies from one source: those of a
  plain object, the indexed elements of an array, the indexed characters of a string,
  nothing from any other value.
\<close>

fun indexed :: "nat \<Rightarrow> jsval list \<Rightarrow> (string \<times> jsval) list" where
  "indexed i [] = []"
| "indexed i (x # xs) = (show_nat i, x) # indexed (Suc i) xs"

fun own_enumerable :: "jsval \<Rightarrow> (string \<times> jsval) list" where
  "own_enumerable (JObj ps) = ps"
| "own_enumerable (JArr xs) = indexed 0 xs"
| "own_enumerable (JStr s) = indexed 0 (map (\<lambda>c. JStr [c]) s)"
| "own_enumerable v = []"

text \<open>\<open>Object.assign({}, src1, ..., srcn)\<close>.\<close>

definition object_assign :: "jsval list \<Rightarrow> (string \<times> jsval) list" where
  "object_assign srcs =
     foldl (\<lambda>acc src. foldl (\<lambda>a (k, v). obj_set a k v) acc (own_enumerable src)) [] srcs"

section \<open>Session data and collaborators\<close>

text \<open>A promise that has settled.\<close>

datatype outcome = Resolved jsval | Rejected jsval

text \<open>\<open>ctx.route\<close>: the current route with its plain path and its full path.\<close>

record route =
  path :: jsval
  fullPath :: jsval

text \<open>A navigation: \<open>ctx.redirect(to)\<close> or \<open>window.location.replace(to)\<close>.\<close>

datatype nav_event = RouterRedirect jsval | LocationReplace jsval

text \<open>
  Everything the module reads and writes outside its own object. \<open>state\<close> is
  \<open>$storage.state\<close>, the ephemeral session fields; \<open>universal\<close> is the persisted
  key space; \<open>error\<close> is \<open>this.error\<close>; \<open>nav\<close> and \<open>requests\<close> record, in order,
  the navigations performed and the endpoint descriptions handed to the transport;
  \<open>watching\<close> tells whether the \<open>loggedIn\<close> subscription of \<open>init\<close> is registered.
\<close>

record store =
  state :: "string \<Rightarrow> jsval"
  universal :: "string \<Rightarrow> jsval"
  error :: jsval
  route :: route
  nav :: "nav_event list"
  requests :: "jsval list"
  watching :: bool

text \<open>
  A call into foreign code (a strategy hook, the transport) either throws at once or
  returns something that \<open>Promise.resolve\<close> turns into a promise. The promise is
  represented by its continuation: run later on the store of that moment, it yields the
  settlement and the store it leaves. Tasks are run one at a time to completion; a
  promise that never settles is not represented.
\<close>

datatype invocation = Threw jsval | Promise "store \<Rightarrow> outcome \<times> store"

type_synonym hook = "jsval list \<Rightarrow> store \<Rightarrow> invocation \<times> store"

text \<open>
  The settlement of the promise a call returned, when nothing else runs in between;
  \<open>None\<close> when the call threw.
\<close>

definition await :: "invocation \<times> store \<Rightarrow> (outcome \<times> store) option" where
  "await r = (case r of (Threw x, s) \<Rightarrow> None | (Promise k, s) \<Rightarrow> Some (k s))"

text \<open>
  A strategy object (a scheme): each of the five capabilities is present or absent.
\<close>

record scheme =
  mounted_hook :: "hook option"
  login_hook :: "hook option"
  fetchUser_hook :: "hook option"
  logout_hook :: "hook option"
  reset_hook :: "hook option"

text \<open>An error listener \<open>fn(error, payload)\<close>; \<open>Some x\<close> means it throws \<open>x\<close>.\<close>

type_synonym listener = "jsval \<Rightarrow> jsval \<Rightarrow> store \<Rightarrow> jsval option \<times> store"

text \<open>
  \<open>this.options\<close>. \<open>redirect\<close> is \<open>None\<close> when the option is \<open>false\<close> or missing,
  otherwise the map from event names to destinations (\<open>JUndefined\<close> where none is
  configured).
\<close>

record options =
  redirect_map :: "(string \<Rightarrow> jsval) option"
  fullPathRedirect :: bool
  rewriteRedirects :: bool
  token_prefix :: string
  defaultStrategy :: jsval
  scopeKey :: jsval

text \<open>
  The \<open>Auth\<close> object: its options, its strategy registry, its error listeners, and the
  collaborators it is built over. The helpers of \<^verbatim>\<open>./utilities\<close> (\<open>isUnset\<close>,
  \<open>isRelativeURL\<close>, \<open>isSameURL\<close>, \<open>routeOption\<close>), the \<open>dotprop\<close> reader \<open>getProp\<close>
  and the transport \<open>ctx.app.$axios.request\<close> are not part of this source file; they
  are parameters. \<open>browser\<close> is \<open>process.browser\<close>.
\<close>

record auth =
  options :: options
  strategies :: "string \<Rightarrow> scheme option"
  errorListeners :: "listener list"
  isUnset :: "jsval \<Rightarrow> bool"
  isRelativeURL :: "jsval \<Rightarrow> bool"
  isSameURL :: "jsval \<Rightarrow> jsval \<Rightarrow> bool"
  routeOption :: "route \<Rightarrow> string \<Rightarrow> jsval \<Rightarrow> bool"
  getProp :: "jsval \<Rightarrow> jsval \<Rightarrow> jsval + jsval"
  axios_request :: "jsval \<Rightarrow> store \<Rightarrow> invocation \<times> store"
  browser :: bool

text \<open>
  What a method call gives back: an exception thrown before it returned, or the
  promise it returned, settled.
\<close>

datatype result = Throws jsval | Returns outcome

section \<open>The storage collaborator\<close>

text \<open>
  The \<open>Storage\<close> class of \<^verbatim>\<open>./storage\<close> is not part of this source file; its
  operations are modelled from the spec. Subscriptions registered with \<open>watchState\<close> are
  run by the storage collaborator, not by the operations below.
\<close>

text \<open>
  Modelled from the spec: \<open>getState\<close> of the missing \<open>Storage\<close> class reads an ephemeral
  in-memory session field.
\<close>

definition getState :: "string \<Rightarrow> store \<Rightarrow> jsval" where
  "getState k s = state s k"

text \<open>
  Modelled from the spec: \<open>setState\<close> of the missing \<open>Storage\<close> class writes an
  ephemeral in-memory session field.
\<close>

definition setState :: "string \<Rightarrow> jsval \<Rightarrow> store \<Rightarrow> store" where
  "setState k v s = s\<lparr>state := (state s)(k := v)\<rparr>"

text \<open>
  Modelled from the spec: \<open>getUniversal\<close> of the missing \<open>Storage\<close> class reads a
  persisted field; the persisted key space is distinct from the session fields.
\<close>

definition getUniversal :: "string \<Rightarrow> store \<Rightarrow> jsval" where
  "getUniversal k s = universal s k"

text \<open>
  Modelled from the spec: \<open>setUniversal\<close> of the missing \<open>Storage\<close> class writes a
  persisted field.
\<close>

definition setUniversal :: "string \<Rightarrow> jsval \<Rightarrow> store \<Rightarrow> store" where
  "setUniversal k v s = s\<lparr>universal := (universal s)(k := v)\<rparr>"

text \<open>
  Modelled from the spec: \<open>syncUniversal\<close> of the missing \<open>Storage\<close> class restores a
  persisted value, falling back to the given default when none is set, and returns it.
\<close>

definition syncUniversal :: "auth \<Rightarrow> string \<Rightarrow> jsval \<Rightarrow> store \<Rightarrow> jsval \<times> store" where
  "syncUniversal a k d s =
     (let v = getUniversal k s;
          v' = (if isUnset a v \<and> \<not> isUnset a d then d else v)
      in (v', if isUnset a v' then s else setUniversal k v' s))"

text \<open>
  Modelled from the spec: \<open>this.$state.strategy\<close>, the session field \<open>strategy\<close> of the
  missing \<open>Storage\<close> class, is the synced view of the persisted key \<open>strategy\<close>.
\<close>

definition state_strategy :: "store \<Rightarrow> jsval" where
  "state_strategy s = getUniversal ''strategy'' s"

section \<open>The Auth class\<close>

text \<open>
  The methods of the class, in the order of the source where dependencies allow. The
  deprecated accessors \<open>state\<close> and \<open>getState\<close>, which add a console warning to
  \<open>$state\<close> and \<open>$storage.getState\<close>, are left out.
\<close>

subsection \<open>Strategy registry\<close>

text \<open>The getter \<open>strategy\<close>: \<open>this.strategies[this.$state.strategy]\<close>.\<close>

definition strategy :: "auth \<Rightarrow> store \<Rightarrow> scheme option" where
  "strategy a s = strategies a (js_to_string (state_strategy s))"

definition registerStrategy :: "string \<Rightarrow> scheme \<Rightarrow> auth \<Rightarrow> auth" where
  "registerStrategy name st a = a\<lparr>strategies := (strategies a)(name := Some st)\<rparr>"

subsection \<open>Error listeners\<close>

definition onError :: "listener \<Rightarrow> auth \<Rightarrow> auth" where
  "onError fn a = a\<lparr>errorListeners := errorListeners a @ [fn]\<rparr>"

text \<open>The \<open>for ... of\<close> loop of \<open>callOnError\<close>: a listener that throws ends it.\<close>

fun run_listeners :: "listener list \<Rightarrow> jsval \<Rightarrow> jsval \<Rightarrow> store \<Rightarrow> jsval option \<times> store" where
  "run_listeners [] e p s = (None, s)"
| "run_listeners (fn # fns) e p s =
     (case fn e p s of
        (Some x, s') \<Rightarrow> (Some x, s')
      | (None, s') \<Rightarrow> run_listeners fns e p s')"

text \<open>\<open>callOnError (error, payload = {})\<close>: an \<open>undefined\<close> payload is replaced by \<open>{}\<close>.\<close>

definition callOnError :: "auth \<Rightarrow> jsval \<Rightarrow> jsval \<Rightarrow> store \<Rightarrow> jsval option \<times> store" where
  "callOnError a e p s =
     run_listeners (errorListeners a) e (if p = JUndefined then JObj [] else p)
       (s\<lparr>error := e\<rparr>)"

text \<open>The payload \<open>{ method: m }\<close>.\<close>

definition method_payload :: "string \<Rightarrow> jsval" where
  "method_payload m = JObj [(''method'', JStr m)]"

text \<open>
  The handler \<open>error => this.callOnError(error, { method: m })\<close> given to \<open>.catch\<close>:
  it returns \<open>undefined\<close>, so the promise resolves, unless a listener throws.
\<close>

definition catch_error :: "auth \<Rightarrow> string \<Rightarrow> jsval \<Rightarrow> store \<Rightarrow> outcome \<times> store" where
  "catch_error a m e s =
     (case callOnError a e (method_payload m) s of
        (None, s') \<Rightarrow> (Resolved JUndefined, s')
      | (Some x, s') \<Rightarrow> (Rejected x, s'))"

text \<open>\<open>Promise.resolve(<hook call>).catch(error => this.callOnError(error, { method: m }))\<close>.\<close>

definition resolve_catch :: "auth \<Rightarrow> string \<Rightarrow> invocation \<times> store \<Rightarrow> result \<times> store" where
  "resolve_catch a m r =
     (case r of
        (Threw x, s) \<Rightarrow> (Throws x, s)
      | (Promise k, s) \<Rightarrow>
          (case k s of
             (Resolved v, s') \<Rightarrow> (Returns (Resolved v), s')
           | (Rejected e, s') \<Rightarrow> (case catch_error a m e s' of (out, s'') \<Rightarrow> (Returns out, s''))))"

subsection \<open>Token helpers\<close>

definition token_key :: "auth \<Rightarrow> jsval \<Rightarrow> string" where
  "token_key a strat = token_prefix (options a) @ js_to_string strat"

definition getToken :: "auth \<Rightarrow> jsval \<Rightarrow> store \<Rightarrow> jsval" where
  "getToken a strat s = getUniversal (token_key a strat) s"

definition setToken :: "auth \<Rightarrow> jsval \<Rightarrow> jsval \<Rightarrow> store \<Rightarrow> store" where
  "setToken a strat token s = setUniversal (token_key a strat) token s"

definition syncToken :: "auth \<Rightarrow> jsval \<Rightarrow> store \<Rightarrow> jsval \<times> store" where
  "syncToken a strat s = syncUniversal a (token_key a strat) JUndefined s"

subsection \<open>User helpers\<close>

definition user :: "store \<Rightarrow> jsval" where
  "user s = state s ''user''"

definition loggedIn :: "store \<Rightarrow> jsval" where
  "loggedIn s = state s ''loggedIn''"

definition busy :: "store \<Rightarrow> jsval" where
  "busy s = getState ''busy'' s"

definition setUser :: "jsval \<Rightarrow> store \<Rightarrow> store" where
  "setUser u s = setState ''user'' u (setState ''loggedIn'' (JBool (truthy u)) s)"

subsection \<open>Lifecycle operations\<close>

definition fetchUser :: "auth \<Rightarrow> jsval list \<Rightarrow> store \<Rightarrow> result \<times> store" where
  "fetchUser a args s =
     (case strategy a s of
        None \<Rightarrow> (Throws (type_error ''fetchUser''), s)
      | Some st \<Rightarrow>
          (case fetchUser_hook st of
             None \<Rightarrow> (Returns (Resolved JUndefined), s)
           | Some h \<Rightarrow> resolve_catch a ''fetchUser'' (h args s)))"

definition fetchUserOnce :: "auth \<Rightarrow> jsval list \<Rightarrow> store \<Rightarrow> result \<times> store" where
  "fetchUserOnce a args s =
     (if \<not> truthy (user s) then fetchUser a args s
      else (Returns (Resolved JUndefined), s))"

definition mounted :: "auth \<Rightarrow> jsval list \<Rightarrow> store \<Rightarrow> result \<times> store" where
  "mounted a args s =
     (case strategy a s of
        None \<Rightarrow> (Throws (type_error ''mounted''), s)
      | Some st \<Rightarrow>
          (case mounted_hook st of
             None \<Rightarrow> fetchUserOnce a [] s
           | Some h \<Rightarrow> resolve_catch a ''mounted'' (h args s)))"

definition setStrategy :: "auth \<Rightarrow> string \<Rightarrow> store \<Rightarrow> result \<times> store" where
  "setStrategy a name s =
     (if JStr name = getUniversal ''strategy'' s then (Returns (Resolved JUndefined), s)
      else mounted a [] (setUniversal ''strategy'' (JStr name) s))"

text \<open>
  \<open>wrapLogin\<close>, applied to the promise the strategy's \<open>login\<close> returned: \<open>busy\<close> is
  set and \<open>this.error\<close> cleared before the promise settles, \<open>busy\<close> is reset when it
  has settled, and a rejection is passed on.
\<close>

definition wrapLogin :: "(store \<Rightarrow> outcome \<times> store) \<Rightarrow> store \<Rightarrow> outcome \<times> store" where
  "wrapLogin k s =
     (case k ((setState ''busy'' (JBool True) s)\<lparr>error := JNull\<rparr>) of
        (Resolved v, s') \<Rightarrow> (Resolved JUndefined, setState ''busy'' (JBool False) s')
      | (Rejected e, s') \<Rightarrow> (Rejected e, setState ''busy'' (JBool False) s'))"

definition login :: "auth \<Rightarrow> jsval list \<Rightarrow> store \<Rightarrow> result \<times> store" where
  "login a args s =
     (case strategy a s of
        None \<Rightarrow> (Throws (type_error ''login''), s)
      | Some st \<Rightarrow>
          (case login_hook st of
             None \<Rightarrow> (Returns (Resolved JUndefined), s)
           | Some h \<Rightarrow>
               (case h args s of
                  (Threw x, s1) \<Rightarrow> (Throws x, s1)
                | (Promise k, s1) \<Rightarrow>
                    (case wrapLogin k s1 of
                       (Resolved v, s2) \<Rightarrow> (Returns (Resolved v), s2)
                     | (Rejected e, s2) \<Rightarrow>
                         (case catch_error a ''login'' e s2 of
                            (out, s3) \<Rightarrow> (Returns out, s3))))))"

text \<open>
  \<open>loginWith\<close>: \<open>this.setStrategy(name).then(() => this.login(...args))\<close>. An
  exception thrown by \<open>login\<close> inside the \<open>then\<close> handler rejects the promise.
\<close>

definition loginWith :: "auth \<Rightarrow> string \<Rightarrow> jsval list \<Rightarrow> store \<Rightarrow> result \<times> store" where
  "loginWith a name args s =
     (case setStrategy a name s of
        (Throws x, s1) \<Rightarrow> (Throws x, s1)
      | (Returns (Rejected e), s1) \<Rightarrow> (Returns (Rejected e), s1)
      | (Returns (Resolved v), s1) \<Rightarrow>
          (case login a args s1 of
             (Throws x, s2) \<Rightarrow> (Returns (Rejected x), s2)
           | (Returns out, s2) \<Rightarrow> (Returns out, s2)))"

definition reset :: "auth \<Rightarrow> jsval list \<Rightarrow> store \<Rightarrow> result \<times> store" where
  "reset a args s =
     (case strategy a s of
        None \<Rightarrow> (Throws (type_error ''reset''), s)
      | Some st \<Rightarrow>
          (case reset_hook st of
             None \<Rightarrow>
               (let s1 = setUser JNull s;
                    s2 = setToken a (state_strategy s1) JNull s1
                in (Returns (Resolved JUndefined), s2))
           | Some h \<Rightarrow> resolve_catch a ''reset'' (h args s)))"

definition logout :: "auth \<Rightarrow> jsval list \<Rightarrow> store \<Rightarrow> result \<times> store" where
  "logout a args s =
     (case strategy a s of
        None \<Rightarrow> (Throws (type_error ''logout''), s)
      | Some st \<Rightarrow>
          (case logout_hook st of
             None \<Rightarrow>
               (case reset a [] s of
                  (Throws x, s1) \<Rightarrow> (Throws x, s1)
                | (Returns out, s1) \<Rightarrow> (Returns (Resolved JUndefined), s1))
           | Some h \<Rightarrow> resolve_catch a ''logout'' (h args s)))"

subsection \<open>Requests\<close>

text \<open>
  The \<open>then\<close> handler of \<open>request\<close>: the configured field of \<open>response.data\<close> when
  the endpoint names one, otherwise the whole payload.
\<close>

definition request_then :: "auth \<Rightarrow> jsval \<Rightarrow> jsval \<Rightarrow> jsval + jsval" where
  "request_then a ep response =
     (case js_get ep ''propertyName'' of
        Inl x \<Rightarrow> Inl x
      | Inr p \<Rightarrow>
          (case js_get response ''data'' of
             Inl x \<Rightarrow> Inl x
           | Inr d \<Rightarrow> (if truthy p then getProp a d p else Inr d)))"

text \<open>
  The \<open>catch\<close> handler of \<open>request\<close>: all listeners are called, then the error is
  rejected again.
\<close>

definition request_catch :: "auth \<Rightarrow> jsval \<Rightarrow> store \<Rightarrow> result \<times> store" where
  "request_catch a x s =
     (case callOnError a x (method_payload ''request'') s of
        (None, s') \<Rightarrow> (Returns (Rejected x), s')
      | (Some y, s') \<Rightarrow> (Returns (Rejected y), s'))"

definition request :: "auth \<Rightarrow> jsval \<Rightarrow> jsval \<Rightarrow> store \<Rightarrow> result \<times> store" where
  "request a endpoint defaults s =
     (let ep = (if typeof_object defaults then JObj (object_assign [defaults, endpoint])
                else endpoint)
      in case axios_request a ep (s\<lparr>requests := requests s @ [ep]\<rparr>) of
           (Threw x, s1) \<Rightarrow> (Throws x, s1)
         | (Promise k, s1) \<Rightarrow>
             (case k s1 of
                (Resolved response, s2) \<Rightarrow>
                  (case request_then a ep response of
                     Inr v \<Rightarrow> (Returns (Resolved v), s2)
                   | Inl x \<Rightarrow> request_catch a x s2)
              | (Rejected x, s2) \<Rightarrow> request_catch a x s2))"

text \<open>
  \<open>if (!headers['Authorization']) headers['Authorization'] = token\<close>, for a truthy
  \<open>headers\<close> value. Writing a property of a primitive throws in strict mode; a named
  property written to an array or an error object is not represented.
\<close>

definition set_authorization :: "jsval \<Rightarrow> jsval \<Rightarrow> jsval + jsval" where
  "set_authorization h token =
     (case h of
        JObj ps \<Rightarrow>
          (if \<not> truthy (obj_get ps ''Authorization'')
           then Inr (JObj (obj_set ps ''Authorization'' token)) else Inr h)
      | JArr xs \<Rightarrow> Inr h
      | JError n m \<Rightarrow> Inr h
      | _ \<Rightarrow> Inl (type_error ''Authorization''))"

definition requestWith :: "auth \<Rightarrow> jsval \<Rightarrow> jsval \<Rightarrow> jsval \<Rightarrow> store \<Rightarrow> result \<times> store" where
  "requestWith a strat endpoint defaults s =
     (let token = getToken a strat s in
      if isUnset a token then (Returns (Rejected (JError ''Error'' ''No Token'')), s)
      else
        (let ep = object_assign [defaults, endpoint];
             ep1 = (if \<not> truthy (obj_get ep ''headers'') then obj_set ep ''headers'' (JObj [])
                    else ep)
         in case set_authorization (obj_get ep1 ''headers'') token of
              Inl x \<Rightarrow> (Throws x, s)
            | Inr h \<Rightarrow> request a (JObj (obj_set ep1 ''headers'' h)) JUndefined s))"

subsection \<open>Redirects\<close>

text \<open>
  \<open>const from = this.options.fullPathRedirect ? this.ctx.route.path : this.ctx.route.fullPath\<close>
\<close>

definition redirect_from :: "auth \<Rightarrow> store \<Rightarrow> jsval" where
  "redirect_from a s =
     (if fullPathRedirect (options a) then path (route s) else fullPath (route s))"

text \<open>
  The block under \<open>// Apply rewrites\<close>: the destination after rewriting, and the store
  with the persisted return-to target written or cleared.
\<close>

definition apply_rewrites :: "auth \<Rightarrow> string \<Rightarrow> jsval \<Rightarrow> jsval \<Rightarrow> store \<Rightarrow> jsval \<times> store" where
  "apply_rewrites a name from to s =
     (if rewriteRedirects (options a) then
        (let s1 = (if name = ''login'' \<and> isRelativeURL a from \<and> \<not> isSameURL a to from
                   then setUniversal ''redirect'' from s else s)
         in if name = ''home'' then
              (let r = getUniversal ''redirect'' s1;
                   s2 = setUniversal ''redirect'' JNull s1
               in (if isRelativeURL a r then r else to, s2))
            else (to, s1))
      else (to, s))"

text \<open>The navigation at the end of \<open>redirect\<close>.\<close>

definition navigate :: "auth \<Rightarrow> bool \<Rightarrow> jsval \<Rightarrow> store \<Rightarrow> store" where
  "navigate a noRouter to s =
     (if browser a then
        (if noRouter then s\<lparr>nav := nav s @ [LocationReplace to]\<rparr>
         else s\<lparr>nav := nav s @ [RouterRedirect to]\<rparr>)
      else s\<lparr>nav := nav s @ [RouterRedirect to]\<rparr>)"

definition redirect :: "auth \<Rightarrow> string \<Rightarrow> bool \<Rightarrow> store \<Rightarrow> store" where
  "redirect a name noRouter s =
     (case redirect_map (options a) of
        None \<Rightarrow> s
      | Some dests \<Rightarrow>
          (let from = redirect_from a s;
               to = dests name
           in if \<not> truthy to then s
              else
                (case apply_rewrites a name from to s of
                   (to', s') \<Rightarrow>
                     (if isSameURL a to' from then s' else navigate a noRouter to' s'))))"

subsection \<open>Initialisation\<close>

text \<open>
  The callback \<open>init\<close> registers for changes of \<open>loggedIn\<close>; the storage collaborator
  calls it with the new value.
\<close>

definition loggedIn_changed :: "auth \<Rightarrow> jsval \<Rightarrow> store \<Rightarrow> store" where
  "loggedIn_changed a v s =
     (if \<not> routeOption a (route s) ''auth'' (JBool False)
      then redirect a (if truthy v then ''home'' else ''logout'') False s
      else s)"

definition init :: "auth \<Rightarrow> store \<Rightarrow> result \<times> store" where
  "init a s =
     (let s1 = (if browser a then s\<lparr>watching := True\<rparr> else s);
          s2 = snd (syncUniversal a ''strategy'' (defaultStrategy (options a)) s1)
      in mounted a [] s2)"

subsection \<open>Scopes\<close>

text \<open>\<open>const userScopes = this.$state.user && getProp(this.$state.user, this.options.scopeKey)\<close>\<close>

definition userScopes :: "auth \<Rightarrow> store \<Rightarrow> jsval + jsval" where
  "userScopes a s =
     (if truthy (user s) then getProp a (user s) (scopeKey (options a)) else Inr (user s))"

text \<open>
  \<open>hasScope\<close>; the scope is a name. \<open>Inl\<close> is an exception thrown by \<open>getProp\<close>.
\<close>

definition hasScope :: "auth \<Rightarrow> string \<Rightarrow> store \<Rightarrow> jsval + jsval" where
  "hasScope a scope s =
     (case userScopes a s of
        Inl x \<Rightarrow> Inl x
      | Inr us \<Rightarrow>
          (if \<not> truthy us then Inr JUndefined
           else
             (case us of
                JArr xs \<Rightarrow> Inr (JBool (JStr scope \<in> set xs))
              | _ \<Rightarrow>
                  (case getProp a us (JStr scope) of
                     Inl x \<Rightarrow> Inl x
                   | Inr v \<Rightarrow> Inr (JBool (truthy v))))))"

section \<open>Instances of the collaborators\<close>

text \<open>
  The theorems below hold for every choice of the helpers of \<^verbatim>\<open>./utilities\<close>; the
  instances here serve to evaluate them on concrete inputs.
\<close>

text \<open>
  Modelled from the spec: \<open>isUnset\<close> of the missing \<^verbatim>\<open>./utilities\<close> holds of a value
  that is unset or empty.
\<close>

definition isUnset_spec :: "jsval \<Rightarrow> bool" where
  "isUnset_spec v = (v = JUndefined \<or> v = JNull \<or> v = JStr [])"

text \<open>
  Modelled from the spec: the normal form in which the missing \<open>isSameURL\<close> compares two
  URLs is taken to be the URL up to its query part.
\<close>

definition url_base :: "jsval \<Rightarrow> string" where
  "url_base v = takeWhile (\<lambda>c. c \<noteq> CHR ''?'') (js_to_string v)"

text \<open>
  Modelled from the spec: \<open>isSameURL\<close> of the missing \<^verbatim>\<open>./utilities\<close> holds when two
  URLs normalise to the same URL.
\<close>

definition isSameURL_spec :: "jsval \<Rightarrow> jsval \<Rightarrow> bool" where
  "isSameURL_spec u v = (url_base u = url_base v)"

text \<open>
  Modelled from the spec: \<open>isRelativeURL\<close> of the missing \<^verbatim>\<open>./utilities\<close> holds of a
  same-origin relative path, taken to be a string that starts with a single slash.
\<close>

fun isRelativeURL_spec :: "jsval \<Rightarrow> bool" where
  "isRelativeURL_spec (JStr (c # d # cs)) = (c = CHR ''/'' \<and> d \<noteq> CHR ''/'')"
| "isRelativeURL_spec (JStr [c]) = (c = CHR ''/'')"
| "isRelativeURL_spec v = False"

text \<open>
  A reader of one own property, standing for \<open>getProp\<close> of the \<open>dotprop\<close> package on
  paths without dots: a falsy holder or path gives the holder back.
\<close>

definition getProp_own :: "jsval \<Rightarrow> jsval \<Rightarrow> jsval + jsval" where
  "getProp_own holder p =
     (if \<not> truthy p \<or> \<not> truthy holder then Inr holder
      else (case holder of JObj ps \<Rightarrow> Inr (obj_get ps (js_to_string p)) | _ \<Rightarrow> Inr JUndefined))"

text \<open>A transport that answers every request with the payload \<open>{ ok: true }\<close>.\<close>

definition axios_ok :: "jsval \<Rightarrow> store \<Rightarrow> invocation \<times> store" where
  "axios_ok ep s =
     (Promise (\<lambda>t. (Resolved (JObj [(''data'', JObj [(''ok'', JBool True)])]), t)), s)"

text \<open>A strategy whose only capability is a \<open>login\<close> that rejects.\<close>

definition bad_credentials :: jsval where
  "bad_credentials = JError ''Error'' ''Bad credentials''"

definition rejecting_login :: hook where
  "rejecting_login args s = (Promise (\<lambda>t. (Rejected bad_credentials, t)), s)"

definition local_scheme :: scheme where
  "local_scheme =
     \<lparr>mounted_hook = None, login_hook = Some rejecting_login, fetchUser_hook = None,
      logout_hook = None, reset_hook = None\<rparr>"

text \<open>
  A strategy whose only capability is a \<open>mounted\<close> that counts its calls in the
  session field \<open>mounted_calls\<close>.
\<close>

definition counting_mounted :: hook where
  "counting_mounted args s =
     (Promise (\<lambda>t. (Resolved JUndefined, t)),
      setState ''mounted_calls''
        (case getState ''mounted_calls'' s of JNum n \<Rightarrow> JNum (n + 1) | _ \<Rightarrow> JNum 1) s)"

definition social_scheme :: scheme where
  "social_scheme =
     \<lparr>mounted_hook = Some counting_mounted, login_hook = None, fetchUser_hook = None,
      logout_hook = None, reset_hook = None\<rparr>"

text \<open>
  A strategy whose only capability is a \<open>reset\<close> that counts its calls in the session
  field \<open>reset_calls\<close>.
\<close>

definition counting_reset :: hook where
  "counting_reset args s =
     (Promise (\<lambda>t. (Resolved JUndefined, t)),
      setState ''reset_calls''
        (case getState ''reset_calls'' s of JNum n \<Rightarrow> JNum (n + 1) | _ \<Rightarrow> JNum 1) s)"

definition token_scheme :: scheme where
  "token_scheme =
     \<lparr>mounted_hook = None, login_hook = None, fetchUser_hook = None,
      logout_hook = None, reset_hook = Some counting_reset\<rparr>"

text \<open>A listener that keeps what it was called with in the session field \<open>reported\<close>.\<close>

definition recording_listener :: listener where
  "recording_listener e p s = (None, setState ''reported'' (JArr [e, p]) s)"

definition sample_dests :: "string \<Rightarrow> jsval" where
  "sample_dests name =
     (if name = ''login'' then JStr ''/login''
      else if name = ''home'' then JStr ''/''
      else if name = ''logout'' then JStr ''/''
      else JUndefined)"

definition sample_options :: options where
  "sample_options =
     \<lparr>redirect_map = Some sample_dests, fullPathRedirect = False, rewriteRedirects = True,
      token_prefix = ''_token.'', defaultStrategy = JStr ''local'',
      scopeKey = JStr ''scope''\<rparr>"

definition sample_auth :: auth where
  "sample_auth =
     \<lparr>options = sample_options,
      strategies =
        (\<lambda>name. if name = ''local'' then Some local_scheme
                else if name = ''social'' then Some social_scheme else None),
      errorListeners = [recording_listener],
      isUnset = isUnset_spec, isRelativeURL = isRelativeURL_spec, isSameURL = isSameURL_spec,
      routeOption = (\<lambda>r k v. False), getProp = getProp_own, axios_request = axios_ok,
      browser = True\<rparr>"

text \<open>
  The store the constructor leaves (\<open>initialState = { user: null, loggedIn: false }\<close>),
  on a route \<open>p\<close> without query, with the persisted strategy name \<open>n\<close>.
\<close>

definition initial_store :: "jsval \<Rightarrow> jsval \<Rightarrow> store" where
  "initial_store p n =
     \<lparr>state = (\<lambda>k. JUndefined)(''user'' := JNull, ''loggedIn'' := JBool False),
      universal = (\<lambda>k. JUndefined)(''strategy'' := n),
      error = JUndefined, route = \<lparr>path = p, fullPath = p\<rparr>,
      nav = [], requests = [], watching = False\<rparr>"

section \<open>The session invariant\<close>

text \<open>
  \<open>loggedIn\<close> is the truthiness of \<open>user\<close>: what the two writes of \<open>setUser\<close>
  establish together.
\<close>

definition session_inv :: "store \<Rightarrow> bool" where
  "session_inv s = (loggedIn s = JBool (truthy (user s)))"

text \<open>
  Foreign code keeps the invariant: a call (a strategy hook, the transport) leaves it
  intact when it returns, and the promise it returned leaves it intact when it settles.
\<close>

definition call_keeps :: "(store \<Rightarrow> invocation \<times> store) \<Rightarrow> bool" where
  "call_keeps f =
     (\<forall>s. session_inv s \<longrightarrow>
        session_inv (snd (f s))
        \<and> (\<forall>k t. fst (f s) = Promise k \<longrightarrow> session_inv t \<longrightarrow> session_inv (snd (k t))))"

definition hooks_of :: "scheme \<Rightarrow> hook set" where
  "hooks_of st =
     set_option (mounted_hook st) \<union> set_option (login_hook st)
     \<union> set_option (fetchUser_hook st) \<union> set_option (logout_hook st)
     \<union> set_option (reset_hook st)"

definition foreign_keeps :: "auth \<Rightarrow> bool" where
  "foreign_keeps a =
     ((\<forall>n st h args. strategies a n = Some st \<longrightarrow> h \<in> hooks_of st \<longrightarrow> call_keeps (h args))
      \<and> (\<forall>ep. call_keeps (axios_request a ep))
      \<and> (\<forall>fn e p s. fn \<in> set (errorListeners a) \<longrightarrow> session_inv s \<longrightarrow>
             session_inv (snd (fn e p s))))"

section \<open>Verified properties\<close>

subsection \<open>Requests without a token\<close>

text \<open>
  Claim C4. When the token stored for a strategy is unset (\<open>isUnset\<close> holds of it),
  \<open>requestWith\<close> returns a promise rejected with the error \<open>No Token\<close> and leaves the
  store as it was, whatever the transport is: nothing is handed to the transport.
\<close>

theorem requestWith_no_token:
  "isUnset a (getToken a strat s) \<Longrightarrow>
   requestWith a strat endpoint defaults s =
     (Returns (Rejected (JError ''Error'' ''No Token'')), s)
   \<and> requests (snd (requestWith a strat endpoint defaults s)) = requests s"
  by (simp add: requestWith_def)

theorem requestWith_no_token_witness:
  "isUnset sample_auth
     (getToken sample_auth (JStr ''local'') (initial_store (JStr ''/'') (JStr ''local'')))
   \<and> fst (requestWith sample_auth (JStr ''local'') (JObj [(''url'', JStr ''/api/user'')])
            JUndefined (initial_store (JStr ''/'') (JStr ''local'')))
       = Returns (Rejected (JError ''Error'' ''No Token''))
   \<and> requests (snd (requestWith sample_auth (JStr ''local'')
            (JObj [(''url'', JStr ''/api/user'')]) JUndefined
            (initial_store (JStr ''/'') (JStr ''local'')))) = []
   \<and> isUnset sample_auth
     (getToken sample_auth (JStr ''local'')
        (setToken sample_auth (JStr ''local'') (JStr [])
           (initial_store (JStr ''/'') (JStr ''local''))))
   \<and> fst (requestWith sample_auth (JStr ''local'') (JObj [(''url'', JStr ''/api/user'')])
            JUndefined
            (setToken sample_auth (JStr ''local'') (JStr [])
               (initial_store (JStr ''/'') (JStr ''local''))))
       = Returns (Rejected (JError ''Error'' ''No Token''))
   \<and> requests (snd (requestWith sample_auth (JStr ''local'')
            (JObj [(''url'', JStr ''/api/user'')]) JUndefined
            (setToken sample_auth (JStr ''local'') (JStr [])
               (initial_store (JStr ''/'') (JStr ''local''))))) = []"
proof -
  let ?s = "initial_store (JStr ''/'') (JStr ''local'')"
  let ?t = "setToken sample_auth (JStr ''local'') (JStr []) ?s"
  let ?ep = "JObj [(''url'', JStr ''/api/user'')]"
  have unset: "isUnset sample_auth (getToken sample_auth (JStr ''local'') ?s)"
    by (simp add: sample_auth_def sample_options_def getToken_def token_key_def
        getUniversal_def initial_store_def isUnset_spec_def)
  have tok: "getToken sample_auth (JStr ''local'') ?t = JStr []"
    by (simp add: getToken_def setToken_def getUniversal_def setUniversal_def)
  have "isUnset sample_auth = isUnset_spec"
    by (simp add: sample_auth_def)
  with tok have empty: "isUnset sample_auth (getToken sample_auth (JStr ''local'') ?t)"
    by (simp add: isUnset_spec_def)
  have none: "requests ?s = []" "requests ?t = []"
    by (simp_all add: initial_store_def setToken_def setUniversal_def)
  from requestWith_no_token [OF unset, of ?ep JUndefined]
    requestWith_no_token [OF empty, of ?ep JUndefined] unset empty none
  show ?thesis
    by simp
qed

subsection \<open>Redirects\<close>

lemma getUniversal_setUniversal [simp]:
  "getUniversal k (setUniversal k v s) = v"
  by (simp add: getUniversal_def setUniversal_def)

lemma getUniversal_navigate [simp]:
  "getUniversal k (navigate a noRouter to s) = getUniversal k s"
  by (simp add: navigate_def getUniversal_def)

lemma getUniversal_route_update [simp]:
  "getUniversal k (s\<lparr>route := r\<rparr>) = getUniversal k s"
  by (simp add: getUniversal_def)

lemma redirect_from_plain_route [simp]:
  "redirect_from a (s\<lparr>route := \<lparr>path = p, fullPath = p\<rparr>\<rparr>) = p"
  by (simp add: redirect_from_def)

lemma apply_rewrites_nav: "nav (snd (apply_rewrites a name from to s)) = nav s"
  by (simp add: apply_rewrites_def Let_def setUniversal_def)

lemma redirect_login_persists:
  assumes "redirect_map (options a) = Some dests"
    and "rewriteRedirects (options a)"
    and "truthy (dests ''login'')"
    and "isRelativeURL a (redirect_from a s)"
    and "\<not> isSameURL a (dests ''login'') (redirect_from a s)"
  shows "getUniversal ''redirect'' (redirect a ''login'' noRouter s) = redirect_from a s"
proof -
  have "apply_rewrites a ''login'' (redirect_from a s) (dests ''login'') s
        = (dests ''login'', setUniversal ''redirect'' (redirect_from a s) s)"
    using assms by (simp add: apply_rewrites_def)
  with assms show ?thesis
    by (simp add: redirect_def Let_def navigate_def getUniversal_def setUniversal_def)
qed

lemma redirect_home_return_to:
  assumes "redirect_map (options a) = Some dests"
    and "rewriteRedirects (options a)"
    and "truthy (dests ''home'')"
    and "isRelativeURL a (getUniversal ''redirect'' s)"
    and "\<not> isSameURL a (getUniversal ''redirect'' s) (redirect_from a s)"
  shows "redirect a ''home'' noRouter s
         = navigate a noRouter (getUniversal ''redirect'' s) (setUniversal ''redirect'' JNull s)"
proof -
  have "apply_rewrites a ''home'' (redirect_from a s) (dests ''home'') s
        = (getUniversal ''redirect'' s, setUniversal ''redirect'' JNull s)"
    using assms by (simp add: apply_rewrites_def Let_def)
  with assms show ?thesis
    by (simp add: redirect_def Let_def)
qed

lemma redirect_home_configured:
  assumes "redirect_map (options a) = Some dests"
    and "rewriteRedirects (options a)"
    and "truthy (dests ''home'')"
    and "\<not> isRelativeURL a (getUniversal ''redirect'' s)"
    and "\<not> isSameURL a (dests ''home'') (redirect_from a s)"
  shows "redirect a ''home'' noRouter s
         = navigate a noRouter (dests ''home'') (setUniversal ''redirect'' JNull s)"
proof -
  have "apply_rewrites a ''home'' (redirect_from a s) (dests ''home'') s
        = (dests ''home'', setUniversal ''redirect'' JNull s)"
    using assms by (simp add: apply_rewrites_def Let_def)
  with assms show ?thesis
    by (simp add: redirect_def Let_def)
qed

text \<open>
  Claim C9. The origin \<open>from\<close> of a redirect is meant to be the router's full path when
  \<open>fullPathRedirect\<close> is enabled and the plain path when it is disabled. The code
  takes them the other way round: on the route with path \<open>/inbox\<close> and full path
  \<open>/inbox?tab=2\<close>, the enabled flag gives \<open>/inbox\<close>, the disabled flag gives
  \<open>/inbox?tab=2\<close>, and with the flag enabled \<open>redirect('login')\<close> persists \<open>/inbox\<close>
  as the return-to target.
\<close>

theorem redirect_from_flag_swapped:
  "redirect_from (sample_auth\<lparr>options := sample_options\<lparr>fullPathRedirect := True\<rparr>\<rparr>)
     ((initial_store (JStr ''/inbox'') (JStr ''local''))
        \<lparr>route := \<lparr>path = JStr ''/inbox'', fullPath = JStr ''/inbox?tab=2''\<rparr>\<rparr>)
   = JStr ''/inbox''
   \<and> redirect_from (sample_auth\<lparr>options := sample_options\<lparr>fullPathRedirect := False\<rparr>\<rparr>)
     ((initial_store (JStr ''/inbox'') (JStr ''local''))
        \<lparr>route := \<lparr>path = JStr ''/inbox'', fullPath = JStr ''/inbox?tab=2''\<rparr>\<rparr>)
   = JStr ''/inbox?tab=2''
   \<and> getUniversal ''redirect''
       (redirect (sample_auth\<lparr>options := sample_options\<lparr>fullPathRedirect := True\<rparr>\<rparr>)
          ''login'' False
          ((initial_store (JStr ''/inbox'') (JStr ''local''))
             \<lparr>route := \<lparr>path = JStr ''/inbox'', fullPath = JStr ''/inbox?tab=2''\<rparr>\<rparr>))
   = JStr ''/inbox''"
  by (simp add: redirect_def apply_rewrites_def navigate_def redirect_from_def Let_def
      sample_auth_def sample_options_def sample_dests_def initial_store_def
      isSameURL_spec_def url_base_def setUniversal_def getUniversal_def)

text \<open>
  Claim C6. Whenever the destination that results from the rewrites is the same URL as
  the origin \<open>from\<close>, \<open>redirect\<close> performs no navigation: the list of navigations is
  what it was, for every event name and every store.
\<close>

theorem redirect_same_url_no_navigation:
  assumes "redirect_map (options a) = Some dests"
    and "isSameURL a (fst (apply_rewrites a name (redirect_from a s) (dests name) s))
           (redirect_from a s)"
  shows "nav (redirect a name noRouter s) = nav s"
proof (cases "apply_rewrites a name (redirect_from a s) (dests name) s")
  case (Pair to' s')
  with assms(2) have same: "isSameURL a to' (redirect_from a s)"
    by simp
  from Pair have "nav s' = nav s"
    using apply_rewrites_nav [of a name "redirect_from a s" "dests name" s] by simp
  with assms(1) Pair same show ?thesis
    by (simp add: redirect_def Let_def)
qed

theorem redirect_same_url_no_navigation_witness:
  "redirect_map (options sample_auth) = Some sample_dests
   \<and> isSameURL sample_auth
        (fst (apply_rewrites sample_auth ''login''
                (redirect_from sample_auth (initial_store (JStr ''/login?next=1'') (JStr ''local'')))
                (sample_dests ''login'') (initial_store (JStr ''/login?next=1'') (JStr ''local''))))
        (redirect_from sample_auth (initial_store (JStr ''/login?next=1'') (JStr ''local'')))
   \<and> nav (redirect sample_auth ''login'' False
        (initial_store (JStr ''/login?next=1'') (JStr ''local''))) = []"
proof -
  let ?s = "initial_store (JStr ''/login?next=1'') (JStr ''local'')"
  have cfg: "redirect_map (options sample_auth) = Some sample_dests"
    by (simp add: sample_auth_def sample_options_def)
  have same: "isSameURL sample_auth
      (fst (apply_rewrites sample_auth ''login'' (redirect_from sample_auth ?s)
              (sample_dests ''login'') ?s)) (redirect_from sample_auth ?s)"
    by (simp add: apply_rewrites_def redirect_from_def sample_auth_def sample_options_def
        sample_dests_def initial_store_def isSameURL_spec_def url_base_def Let_def)
  from redirect_same_url_no_navigation [OF cfg same, of False]
  have "nav (redirect sample_auth ''login'' False ?s) = nav ?s" .
  then show ?thesis
    using cfg same by (simp add: initial_store_def)
qed

text \<open>
  Claim C10. With rewriting enabled and a destination configured for \<open>home\<close>, every
  \<open>redirect('home')\<close> leaves the persisted return-to target \<open>null\<close>; when the
  navigation is aborted because destination and origin are the same URL, clearing the
  target is all the call does.
\<close>

theorem redirect_home_clears_return_to:
  assumes "redirect_map (options a) = Some dests"
    and "truthy (dests ''home'')"
    and "rewriteRedirects (options a)"
  shows "getUniversal ''redirect'' (redirect a ''home'' noRouter s) = JNull
    \<and> (isSameURL a (fst (apply_rewrites a ''home'' (redirect_from a s) (dests ''home'') s))
          (redirect_from a s)
        \<longrightarrow> redirect a ''home'' noRouter s = setUniversal ''redirect'' JNull s)"
  using assms
  by (simp add: redirect_def apply_rewrites_def navigate_def Let_def getUniversal_def
      setUniversal_def)

theorem redirect_home_clears_return_to_witness:
  "redirect_map (options sample_auth) = Some sample_dests
   \<and> truthy (sample_dests ''home'')
   \<and> rewriteRedirects (options sample_auth)
   \<and> getUniversal ''redirect'' (redirect sample_auth ''home'' False
        (setUniversal ''redirect'' (JStr ''/secret'')
           (initial_store (JStr ''/secret'') (JStr ''local'')))) = JNull
   \<and> nav (redirect sample_auth ''home'' False
        (setUniversal ''redirect'' (JStr ''/secret'')
           (initial_store (JStr ''/secret'') (JStr ''local'')))) = []"
proof -
  let ?s = "setUniversal ''redirect'' (JStr ''/secret'')
              (initial_store (JStr ''/secret'') (JStr ''local''))"
  have cfg: "redirect_map (options sample_auth) = Some sample_dests"
    by (simp add: sample_auth_def sample_options_def)
  have home: "truthy (sample_dests ''home'')"
    by (simp add: sample_dests_def)
  have rw: "rewriteRedirects (options sample_auth)"
    by (simp add: sample_auth_def sample_options_def)
  have same: "isSameURL sample_auth
      (fst (apply_rewrites sample_auth ''home'' (redirect_from sample_auth ?s)
              (sample_dests ''home'') ?s)) (redirect_from sample_auth ?s)"
    by (simp add: apply_rewrites_def redirect_from_def sample_auth_def sample_options_def
        initial_store_def setUniversal_def getUniversal_def isSameURL_spec_def Let_def)
  from redirect_home_clears_return_to [OF cfg home rw, of False ?s] same
  have "getUniversal ''redirect'' (redirect sample_auth ''home'' False ?s) = JNull"
    and "redirect sample_auth ''home'' False ?s = setUniversal ''redirect'' JNull ?s"
    by simp_all
  then show ?thesis
    using cfg home rw by (simp add: setUniversal_def initial_store_def)
qed

text \<open>
  Claim C5. With rewriting enabled and destinations configured for \<open>login\<close> and \<open>home\<close>:
  \<open>redirect('login')\<close> from the relative path \<open>/secret\<close>, which is not the login
  destination, persists \<open>/secret\<close> as the return-to target; a later \<open>redirect('home')\<close>,
  from a route \<open>p1\<close> that is not \<open>/secret\<close>, navigates to \<open>/secret\<close> and clears the
  persisted target; a second \<open>redirect('home')\<close>, from a route \<open>p2\<close> that is not the home
  destination, navigates to the configured home destination.
\<close>

theorem redirect_return_to_round_trip:
  assumes cfg: "redirect_map (options a) = Some dests"
    and rw: "rewriteRedirects (options a)"
    and login: "truthy (dests ''login'')"
    and home: "truthy (dests ''home'')"
    and rel: "isRelativeURL a (JStr ''/secret'')"
    and null: "\<not> isRelativeURL a JNull"
    and distinct: "\<not> isSameURL a (dests ''login'') (JStr ''/secret'')"
    and r0: "route s = \<lparr>path = JStr ''/secret'', fullPath = JStr ''/secret''\<rparr>"
    and away1: "\<not> isSameURL a (JStr ''/secret'') p1"
    and away2: "\<not> isSameURL a (dests ''home'') p2"
  shows "let s1 = redirect a ''login'' n0 s;
             t1 = s1\<lparr>route := \<lparr>path = p1, fullPath = p1\<rparr>\<rparr>;
             s2 = redirect a ''home'' n1 t1;
             t2 = s2\<lparr>route := \<lparr>path = p2, fullPath = p2\<rparr>\<rparr>;
             s3 = redirect a ''home'' n2 t2
         in getUniversal ''redirect'' s1 = JStr ''/secret''
          \<and> s2 = navigate a n1 (JStr ''/secret'') (setUniversal ''redirect'' JNull t1)
          \<and> getUniversal ''redirect'' s2 = JNull
          \<and> s3 = navigate a n2 (dests ''home'') (setUniversal ''redirect'' JNull t2)"
proof -
  define s1 where "s1 = redirect a ''login'' n0 s"
  define t1 where "t1 = s1\<lparr>route := \<lparr>path = p1, fullPath = p1\<rparr>\<rparr>"
  define s2 where "s2 = redirect a ''home'' n1 t1"
  define t2 where "t2 = s2\<lparr>route := \<lparr>path = p2, fullPath = p2\<rparr>\<rparr>"
  have from0: "redirect_from a s = JStr ''/secret''"
    using r0 by (simp add: redirect_from_def)
  have stored1: "getUniversal ''redirect'' s1 = JStr ''/secret''"
    unfolding s1_def using redirect_login_persists [OF cfg rw login, of s n0] rel distinct from0
    by simp
  then have stored_t1: "getUniversal ''redirect'' t1 = JStr ''/secret''"
    by (simp add: t1_def)
  have from1: "redirect_from a t1 = p1"
    by (simp add: t1_def)
  have step2: "s2 = navigate a n1 (JStr ''/secret'') (setUniversal ''redirect'' JNull t1)"
    unfolding s2_def
    using redirect_home_return_to [OF cfg rw home, of t1 n1] rel away1 stored_t1 from1
    by simp
  then have stored2: "getUniversal ''redirect'' s2 = JNull"
    by simp
  then have stored_t2: "getUniversal ''redirect'' t2 = JNull"
    by (simp add: t2_def)
  have from2: "redirect_from a t2 = p2"
    by (simp add: t2_def)
  have step3: "redirect a ''home'' n2 t2
               = navigate a n2 (dests ''home'') (setUniversal ''redirect'' JNull t2)"
    using redirect_home_configured [OF cfg rw home, of t2 n2] null away2 stored_t2 from2
    by simp
  from stored1 step2 stored2 step3 show ?thesis
    unfolding Let_def s1_def t1_def s2_def t2_def by blast
qed

theorem redirect_return_to_round_trip_witness:
  "redirect_map (options sample_auth) = Some sample_dests
   \<and> rewriteRedirects (options sample_auth)
   \<and> truthy (sample_dests ''login'') \<and> truthy (sample_dests ''home'')
   \<and> isRelativeURL sample_auth (JStr ''/secret'') \<and> \<not> isRelativeURL sample_auth JNull
   \<and> \<not> isSameURL sample_auth (sample_dests ''login'') (JStr ''/secret'')
   \<and> \<not> isSameURL sample_auth (JStr ''/secret'') (JStr ''/login'')
   \<and> \<not> isSameURL sample_auth (sample_dests ''home'') (JStr ''/secret'')
   \<and> getUniversal ''redirect''
         (redirect sample_auth ''login'' False (initial_store (JStr ''/secret'') (JStr ''local'')))
       = JStr ''/secret''
   \<and> nav (redirect sample_auth ''home'' False
         ((redirect sample_auth ''login'' False (initial_store (JStr ''/secret'') (JStr ''local'')))
            \<lparr>route := \<lparr>path = JStr ''/login'', fullPath = JStr ''/login''\<rparr>\<rparr>))
       = [RouterRedirect (JStr ''/login''), RouterRedirect (JStr ''/secret'')]
   \<and> nav (redirect sample_auth ''home'' False
         ((redirect sample_auth ''home'' False
            ((redirect sample_auth ''login'' False (initial_store (JStr ''/secret'') (JStr ''local'')))
               \<lparr>route := \<lparr>path = JStr ''/login'', fullPath = JStr ''/login''\<rparr>\<rparr>))
            \<lparr>route := \<lparr>path = JStr ''/secret'', fullPath = JStr ''/secret''\<rparr>\<rparr>))
       = [RouterRedirect (JStr ''/login''), RouterRedirect (JStr ''/secret''),
          RouterRedirect (JStr ''/'')]"
proof -
  let ?s = "initial_store (JStr ''/secret'') (JStr ''local'')"
  have cfg: "redirect_map (options sample_auth) = Some sample_dests"
    and rw: "rewriteRedirects (options sample_auth)"
    by (simp_all add: sample_auth_def sample_options_def)
  have dests: "truthy (sample_dests ''login'')" "truthy (sample_dests ''home'')"
    by (simp_all add: sample_dests_def)
  have rel: "isRelativeURL sample_auth (JStr ''/secret'')"
    and null: "\<not> isRelativeURL sample_auth JNull"
    by (simp_all add: sample_auth_def)
  have distinct: "\<not> isSameURL sample_auth (sample_dests ''login'') (JStr ''/secret'')"
    and away1: "\<not> isSameURL sample_auth (JStr ''/secret'') (JStr ''/login'')"
    and away2: "\<not> isSameURL sample_auth (sample_dests ''home'') (JStr ''/secret'')"
    by (simp_all add: sample_auth_def sample_dests_def isSameURL_spec_def url_base_def)
  have r0: "route ?s = \<lparr>path = JStr ''/secret'', fullPath = JStr ''/secret''\<rparr>"
    by (simp add: initial_store_def)
  have nav1: "nav (redirect sample_auth ''login'' False ?s) = [RouterRedirect (JStr ''/login'')]"
    by (simp add: redirect_def apply_rewrites_def navigate_def redirect_from_def Let_def
        sample_auth_def sample_options_def sample_dests_def initial_store_def
        isSameURL_spec_def url_base_def setUniversal_def)
  have br: "browser sample_auth"
    by (simp add: sample_auth_def)
  define s1 where "s1 = redirect sample_auth ''login'' False ?s"
  define s2 where "s2 = redirect sample_auth ''home'' False
      (s1\<lparr>route := \<lparr>path = JStr ''/login'', fullPath = JStr ''/login''\<rparr>\<rparr>)"
  define s3 where "s3 = redirect sample_auth ''home'' False
      (s2\<lparr>route := \<lparr>path = JStr ''/secret'', fullPath = JStr ''/secret''\<rparr>\<rparr>)"
  from redirect_return_to_round_trip [OF cfg rw dests rel null distinct r0 away1 away2,
      of False False False]
  have stored: "getUniversal ''redirect'' s1 = JStr ''/secret''"
    and step2: "s2 = navigate sample_auth False (JStr ''/secret'')
        (setUniversal ''redirect'' JNull
           (s1\<lparr>route := \<lparr>path = JStr ''/login'', fullPath = JStr ''/login''\<rparr>\<rparr>))"
    and step3: "s3 = navigate sample_auth False (sample_dests ''home'')
        (setUniversal ''redirect'' JNull
           (s2\<lparr>route := \<lparr>path = JStr ''/secret'', fullPath = JStr ''/secret''\<rparr>\<rparr>))"
    unfolding Let_def s1_def s2_def s3_def by blast+
  have nav2: "nav s2 = [RouterRedirect (JStr ''/login''), RouterRedirect (JStr ''/secret'')]"
    using nav1 br by (simp add: step2 navigate_def setUniversal_def s1_def)
  have nav3: "nav s3 = [RouterRedirect (JStr ''/login''), RouterRedirect (JStr ''/secret''),
      RouterRedirect (JStr ''/'')]"
    using nav2 br by (simp add: step3 navigate_def setUniversal_def sample_dests_def)
  from stored nav2 nav3 cfg rw dests rel null distinct away1 away2 show ?thesis
    unfolding s1_def s2_def s3_def by blast
qed

subsection \<open>Switching the strategy\<close>

lemma strategy_after_setStrategy:
  "strategy a (setUniversal ''strategy'' (JStr name) s) = strategies a name"
  by (simp add: strategy_def state_strategy_def)

text \<open>
  Claim C3. \<open>setStrategy(name)\<close> with the persisted strategy name returns a resolved
  promise and leaves the store untouched: nothing is persisted and no hook runs. With
  any other name it persists the name and then is \<open>mounted()\<close> on that store, where the
  active strategy is the one registered under \<open>name\<close>; when that strategy has a
  \<open>mounted\<close> capability, it is called on the store with the new name persisted.
\<close>

theorem setStrategy_same_or_switch:
  "(JStr name = getUniversal ''strategy'' s \<longrightarrow>
      setStrategy a name s = (Returns (Resolved JUndefined), s))
   \<and> (JStr name \<noteq> getUniversal ''strategy'' s \<longrightarrow>
      setStrategy a name s = mounted a [] (setUniversal ''strategy'' (JStr name) s)
      \<and> strategy a (setUniversal ''strategy'' (JStr name) s) = strategies a name
      \<and> (\<forall>st h. strategies a name = Some st \<longrightarrow> mounted_hook st = Some h \<longrightarrow>
            setStrategy a name s
            = resolve_catch a ''mounted'' (h [] (setUniversal ''strategy'' (JStr name) s))))"
  by (simp add: setStrategy_def mounted_def strategy_after_setStrategy)

theorem setStrategy_same_or_switch_witness:
  "JStr ''local'' = getUniversal ''strategy'' (initial_store (JStr ''/'') (JStr ''local''))
   \<and> fst (setStrategy sample_auth ''local'' (initial_store (JStr ''/'') (JStr ''local'')))
       = Returns (Resolved JUndefined)
   \<and> getState ''mounted_calls''
         (snd (setStrategy sample_auth ''local'' (initial_store (JStr ''/'') (JStr ''local''))))
       = JUndefined
   \<and> JStr ''social'' \<noteq> getUniversal ''strategy'' (initial_store (JStr ''/'') (JStr ''local''))
   \<and> strategies sample_auth ''social'' = Some social_scheme
   \<and> mounted_hook social_scheme = Some counting_mounted
   \<and> fst (setStrategy sample_auth ''social'' (initial_store (JStr ''/'') (JStr ''local'')))
       = Returns (Resolved JUndefined)
   \<and> getUniversal ''strategy''
         (snd (setStrategy sample_auth ''social'' (initial_store (JStr ''/'') (JStr ''local''))))
       = JStr ''social''
   \<and> getState ''mounted_calls''
         (snd (setStrategy sample_auth ''social'' (initial_store (JStr ''/'') (JStr ''local''))))
       = JNum 1"
proof -
  let ?s = "initial_store (JStr ''/'') (JStr ''local'')"
  have same: "JStr ''local'' = getUniversal ''strategy'' ?s"
    and other: "JStr ''social'' \<noteq> getUniversal ''strategy'' ?s"
    by (simp_all add: getUniversal_def initial_store_def)
  have reg: "strategies sample_auth ''social'' = Some social_scheme"
    by (simp add: sample_auth_def)
  have hook: "mounted_hook social_scheme = Some counting_mounted"
    by (simp add: social_scheme_def)
  have keep: "setStrategy sample_auth ''local'' ?s = (Returns (Resolved JUndefined), ?s)"
    using setStrategy_same_or_switch [of "''local''" ?s sample_auth] same by simp
  have switch: "setStrategy sample_auth ''social'' ?s
      = resolve_catch sample_auth ''mounted''
          (counting_mounted [] (setUniversal ''strategy'' (JStr ''social'') ?s))"
    using setStrategy_same_or_switch [of "''social''" ?s sample_auth] other reg hook by blast
  have r1: "getState ''mounted_calls'' ?s = JUndefined"
    by (simp add: getState_def initial_store_def)
  have r2: "fst (setStrategy sample_auth ''social'' ?s) = Returns (Resolved JUndefined)"
    by (simp add: switch resolve_catch_def counting_mounted_def)
  have r3: "getUniversal ''strategy'' (snd (setStrategy sample_auth ''social'' ?s)) = JStr ''social''"
    by (simp add: switch resolve_catch_def counting_mounted_def getUniversal_def
        setUniversal_def setState_def)
  have r4: "getState ''mounted_calls'' (snd (setStrategy sample_auth ''social'' ?s)) = JNum 1"
    unfolding switch
    by (simp add: resolve_catch_def counting_mounted_def getState_def
        setUniversal_def setState_def initial_store_def)
  from same other reg hook keep r1 r2 r3 r4 show ?thesis
    by simp
qed

subsection \<open>Lifecycle operations and the registry\<close>

text \<open>
  Claim C8, as stated, fails: when no strategy is registered under the active name the
  getter \<open>strategy\<close> yields \<open>undefined\<close>, and each lifecycle operation reads the
  capability off it, which throws a \<open>TypeError\<close>.
\<close>

theorem missing_strategy_throws:
  "strategy sample_auth (initial_store (JStr ''/'') (JStr ''github'')) = None
   \<and> fst (mounted sample_auth [] (initial_store (JStr ''/'') (JStr ''github'')))
       = Throws (type_error ''mounted'')
   \<and> fst (login sample_auth [] (initial_store (JStr ''/'') (JStr ''github'')))
       = Throws (type_error ''login'')
   \<and> fst (fetchUser sample_auth [] (initial_store (JStr ''/'') (JStr ''github'')))
       = Throws (type_error ''fetchUser'')
   \<and> fst (logout sample_auth [] (initial_store (JStr ''/'') (JStr ''github'')))
       = Throws (type_error ''logout'')
   \<and> fst (reset sample_auth [] (initial_store (JStr ''/'') (JStr ''github'')))
       = Throws (type_error ''reset'')"
proof -
  have none: "strategy sample_auth (initial_store (JStr ''/'') (JStr ''github'')) = None"
    by (simp add: strategy_def state_strategy_def getUniversal_def initial_store_def
        sample_auth_def)
  then show ?thesis
    by (simp add: mounted_def login_def fetchUser_def logout_def reset_def)
qed

text \<open>
  Claim C8, amended. When no strategy is registered under the active name, each of
  \<open>mounted\<close>, \<open>login\<close>, \<open>fetchUser\<close>, \<open>logout\<close> and \<open>reset\<close> throws a \<open>TypeError\<close> and
  leaves the store unchanged. The no-op and fallback paths are those of a registered
  strategy that lacks the capability: \<open>mounted\<close> falls back to \<open>fetchUserOnce()\<close>,
  \<open>login\<close> and \<open>fetchUser\<close> resolve without effect, \<open>reset\<close> clears the user and the
  token of the active strategy, and \<open>logout\<close> calls \<open>reset()\<close> without arguments and
  resolves, whether or not the strategy has a \<open>reset\<close> capability (an exception
  thrown by \<open>reset()\<close> is thrown by \<open>logout\<close>).
\<close>

theorem lifecycle_strategy_lookup:
  "(strategy a s = None \<longrightarrow>
      mounted a args s = (Throws (type_error ''mounted''), s)
      \<and> login a args s = (Throws (type_error ''login''), s)
      \<and> fetchUser a args s = (Throws (type_error ''fetchUser''), s)
      \<and> logout a args s = (Throws (type_error ''logout''), s)
      \<and> reset a args s = (Throws (type_error ''reset''), s))
   \<and> (\<forall>st. strategy a s = Some st \<longrightarrow>
        (mounted_hook st = None \<longrightarrow> mounted a args s = fetchUserOnce a [] s)
      \<and> (login_hook st = None \<longrightarrow> login a args s = (Returns (Resolved JUndefined), s))
      \<and> (fetchUser_hook st = None \<longrightarrow> fetchUser a args s = (Returns (Resolved JUndefined), s))
      \<and> (reset_hook st = None \<longrightarrow>
            reset a args s
            = (Returns (Resolved JUndefined), setToken a (state_strategy s) JNull (setUser JNull s)))
      \<and> (logout_hook st = None \<longrightarrow>
            logout a args s
            = (case reset a [] s of
                 (Throws x, s1) \<Rightarrow> (Throws x, s1)
               | (Returns out, s1) \<Rightarrow> (Returns (Resolved JUndefined), s1)))
      \<and> (logout_hook st = None \<longrightarrow> reset_hook st = None \<longrightarrow>
            logout a args s
            = (Returns (Resolved JUndefined), setToken a (state_strategy s) JNull (setUser JNull s))))"
  by (simp add: mounted_def login_def fetchUser_def logout_def reset_def Let_def
      state_strategy_def getUniversal_def setUser_def setState_def)

theorem lifecycle_strategy_lookup_witness:
  "strategy sample_auth (initial_store (JStr ''/'') (JStr ''github'')) = None
   \<and> fst (logout sample_auth [] (initial_store (JStr ''/'') (JStr ''github'')))
       = Throws (type_error ''logout'')
   \<and> strategy sample_auth (initial_store (JStr ''/'') (JStr ''local'')) = Some local_scheme
   \<and> mounted_hook local_scheme = None \<and> fetchUser_hook local_scheme = None
   \<and> logout_hook local_scheme = None \<and> reset_hook local_scheme = None
   \<and> login_hook social_scheme = None
   \<and> strategy sample_auth (initial_store (JStr ''/'') (JStr ''social'')) = Some social_scheme
   \<and> fst (mounted sample_auth [] (initial_store (JStr ''/'') (JStr ''local'')))
       = Returns (Resolved JUndefined)
   \<and> fst (fetchUser sample_auth [] (initial_store (JStr ''/'') (JStr ''local'')))
       = Returns (Resolved JUndefined)
   \<and> fst (login sample_auth [] (initial_store (JStr ''/'') (JStr ''social'')))
       = Returns (Resolved JUndefined)
   \<and> fst (logout sample_auth []
         (setToken sample_auth (JStr ''local'') (JStr ''t0'')
            (setUser (JStr ''ann'') (initial_store (JStr ''/'') (JStr ''local'')))))
       = Returns (Resolved JUndefined)
   \<and> user (snd (logout sample_auth []
         (setToken sample_auth (JStr ''local'') (JStr ''t0'')
            (setUser (JStr ''ann'') (initial_store (JStr ''/'') (JStr ''local'')))))) = JNull
   \<and> getToken sample_auth (JStr ''local'') (snd (logout sample_auth []
         (setToken sample_auth (JStr ''local'') (JStr ''t0'')
            (setUser (JStr ''ann'') (initial_store (JStr ''/'') (JStr ''local'')))))) = JNull
   \<and> strategy (registerStrategy ''token'' token_scheme sample_auth)
         (initial_store (JStr ''/'') (JStr ''token'')) = Some token_scheme
   \<and> logout_hook token_scheme = None
   \<and> reset_hook token_scheme = Some counting_reset
   \<and> fst (logout (registerStrategy ''token'' token_scheme sample_auth) [JStr ''now'']
         (initial_store (JStr ''/'') (JStr ''token''))) = Returns (Resolved JUndefined)
   \<and> getState ''reset_calls''
         (snd (logout (registerStrategy ''token'' token_scheme sample_auth) [JStr ''now'']
            (initial_store (JStr ''/'') (JStr ''token'')))) = JNum 1"
proof -
  let ?a = "registerStrategy ''token'' token_scheme sample_auth"
  let ?k = "initial_store (JStr ''/'') (JStr ''token'')"
  have tok: "strategy ?a ?k = Some token_scheme"
    by (simp add: strategy_def state_strategy_def getUniversal_def initial_store_def
        registerStrategy_def)
  have tcaps: "logout_hook token_scheme = None" "reset_hook token_scheme = Some counting_reset"
    by (simp_all add: token_scheme_def)
  have rst: "reset ?a [] ?k
      = (Returns (Resolved JUndefined), setState ''reset_calls'' (JNum 1) ?k)"
  proof -
    have none: "getState ''reset_calls'' ?k = JUndefined"
      by (simp add: getState_def initial_store_def)
    show ?thesis
      by (simp add: reset_def tok tcaps resolve_catch_def counting_reset_def none)
  qed
  have "logout ?a [JStr ''now''] ?k
      = (case reset ?a [] ?k of
           (Throws x, s1) \<Rightarrow> (Throws x, s1)
         | (Returns out, s1) \<Rightarrow> (Returns (Resolved JUndefined), s1))"
    using lifecycle_strategy_lookup [of ?a ?k "[JStr ''now'']"] tok tcaps by blast
  then have lo: "logout ?a [JStr ''now''] ?k
      = (Returns (Resolved JUndefined), setState ''reset_calls'' (JNum 1) ?k)"
    by (simp add: rst)
  have t6: "fst (logout ?a [JStr ''now''] ?k) = Returns (Resolved JUndefined)"
    and t7: "getState ''reset_calls'' (snd (logout ?a [JStr ''now''] ?k)) = JNum 1"
    unfolding lo by (simp_all add: getState_def setState_def)
  let ?g = "initial_store (JStr ''/'') (JStr ''github'')"
  let ?l = "initial_store (JStr ''/'') (JStr ''local'')"
  let ?o = "initial_store (JStr ''/'') (JStr ''social'')"
  let ?in = "setToken sample_auth (JStr ''local'') (JStr ''t0'') (setUser (JStr ''ann'') ?l)"
  have none: "strategy sample_auth ?g = None"
    and loc: "strategy sample_auth ?l = Some local_scheme"
    and soc: "strategy sample_auth ?o = Some social_scheme"
    and inn: "strategy sample_auth ?in = Some local_scheme"
    by (simp_all add: strategy_def state_strategy_def getUniversal_def initial_store_def
        sample_auth_def setToken_def setUniversal_def setUser_def setState_def token_key_def
        sample_options_def)
  have caps: "mounted_hook local_scheme = None" "fetchUser_hook local_scheme = None"
    "logout_hook local_scheme = None" "reset_hook local_scheme = None"
    "login_hook social_scheme = None"
    by (simp_all add: local_scheme_def social_scheme_def)
  have t1: "fst (logout sample_auth [] ?g) = Throws (type_error ''logout'')"
    using lifecycle_strategy_lookup [of sample_auth ?g "[]"] none by simp
  have fu: "fetchUser sample_auth [] ?l = (Returns (Resolved JUndefined), ?l)"
    using lifecycle_strategy_lookup [of sample_auth ?l "[]"] loc caps by simp
  have "mounted sample_auth [] ?l = fetchUserOnce sample_auth [] ?l"
    using lifecycle_strategy_lookup [of sample_auth ?l "[]"] loc caps by simp
  then have t2: "fst (mounted sample_auth [] ?l) = Returns (Resolved JUndefined)"
    by (simp add: fetchUserOnce_def fu)
  have t3: "fst (login sample_auth [] ?o) = Returns (Resolved JUndefined)"
    using lifecycle_strategy_lookup [of sample_auth ?o "[]"] soc caps by simp
  have out: "logout sample_auth [] ?in
      = (Returns (Resolved JUndefined),
         setToken sample_auth (state_strategy ?in) JNull (setUser JNull ?in))"
    using lifecycle_strategy_lookup [of sample_auth ?in "[]"] inn caps by simp
  have t4: "user (snd (logout sample_auth [] ?in)) = JNull"
    unfolding out
    by (simp add: user_def setToken_def setUniversal_def setUser_def setState_def)
  have t5: "getToken sample_auth (JStr ''local'') (snd (logout sample_auth [] ?in)) = JNull"
    unfolding out
    by (simp add: getToken_def setToken_def setUniversal_def getUniversal_def setUser_def
        setState_def state_strategy_def initial_store_def token_key_def sample_auth_def
        sample_options_def)
  from none loc soc caps t1 t2 t3 t4 t5 t6 t7 tok tcaps fu out show ?thesis
    by simp
qed

subsection \<open>Login failures\<close>

text \<open>
  Claim C1, as stated, fails: the \<open>catch\<close> handler of \<open>login\<close> returns what
  \<open>callOnError\<close> returns, so a rejected strategy login leaves the promise of \<open>login\<close>
  resolved, not rejected.
\<close>

theorem login_rejection_swallowed:
  "strategy sample_auth (initial_store (JStr ''/'') (JStr ''local'')) = Some local_scheme
   \<and> login_hook local_scheme = Some rejecting_login
   \<and> map_option fst (await (rejecting_login [] (initial_store (JStr ''/'') (JStr ''local''))))
       = Some (Rejected bad_credentials)
   \<and> fst (login sample_auth [] (initial_store (JStr ''/'') (JStr ''local'')))
       = Returns (Resolved JUndefined)
   \<and> fst (login sample_auth [] (initial_store (JStr ''/'') (JStr ''local'')))
       \<noteq> Returns (Rejected bad_credentials)"
  by (simp add: strategy_def state_strategy_def getUniversal_def initial_store_def
      sample_auth_def local_scheme_def rejecting_login_def login_def wrapLogin_def await_def
      catch_error_def callOnError_def method_payload_def recording_listener_def)

text \<open>
  Claim C1, amended. When the active strategy has a \<open>login\<close> capability and the promise
  it returns rejects with \<open>e\<close>, \<open>login\<close> resets \<open>busy\<close>, hands \<open>e\<close> to
  \<open>callOnError\<close> with the payload \<open>{ method: 'login' }\<close>, and its promise then resolves
  with \<open>undefined\<close>: the error is not raised again. The promise rejects only when a
  listener throws, with what the listener threw.
\<close>

theorem login_rejection_broadcast:
  assumes "strategy a s = Some st"
    and "login_hook st = Some h"
    and "h args s = (Promise k, s1)"
    and "k ((setState ''busy'' (JBool True) s1)\<lparr>error := JNull\<rparr>) = (Rejected e, s2)"
  shows "login a args s
         = (case callOnError a e (method_payload ''login'') (setState ''busy'' (JBool False) s2) of
              (None, s3) \<Rightarrow> (Returns (Resolved JUndefined), s3)
            | (Some x, s3) \<Rightarrow> (Returns (Rejected x), s3))
     \<and> (fst (callOnError a e (method_payload ''login'') (setState ''busy'' (JBool False) s2)) = None
          \<longrightarrow> fst (login a args s) = Returns (Resolved JUndefined))"
  using assms
  by (simp add: login_def wrapLogin_def catch_error_def split: prod.splits option.splits)

theorem login_rejection_broadcast_witness:
  "strategy sample_auth (initial_store (JStr ''/'') (JStr ''local'')) = Some local_scheme
   \<and> login_hook local_scheme = Some rejecting_login
   \<and> map_option fst (await (rejecting_login [] (initial_store (JStr ''/'') (JStr ''local''))))
       = Some (Rejected bad_credentials)
   \<and> fst (login sample_auth [] (initial_store (JStr ''/'') (JStr ''local'')))
       = Returns (Resolved JUndefined)
   \<and> getState ''reported'' (snd (login sample_auth [] (initial_store (JStr ''/'') (JStr ''local''))))
       = JArr [bad_credentials, JObj [(''method'', JStr ''login'')]]
   \<and> busy (snd (login sample_auth [] (initial_store (JStr ''/'') (JStr ''local''))))
       = JBool False
   \<and> error (snd (login sample_auth [] (initial_store (JStr ''/'') (JStr ''local''))))
       = bad_credentials"
proof -
  let ?s = "initial_store (JStr ''/'') (JStr ''local'')"
  let ?s2 = "(setState ''busy'' (JBool True) ?s)\<lparr>error := JNull\<rparr>"
  let ?k = "\<lambda>t::store. (Rejected bad_credentials, t)"
  have reg: "strategy sample_auth ?s = Some local_scheme"
    by (simp add: strategy_def state_strategy_def getUniversal_def initial_store_def
        sample_auth_def)
  have cap: "login_hook local_scheme = Some rejecting_login"
    by (simp add: local_scheme_def)
  have call: "rejecting_login [] ?s = (Promise ?k, ?s)"
    by (simp add: rejecting_login_def)
  have settles: "?k ?s2 = (Rejected bad_credentials, ?s2)"
    by simp
  have bus: "callOnError sample_auth bad_credentials (method_payload ''login'')
               (setState ''busy'' (JBool False) ?s2)
             = (None, setState ''reported'' (JArr [bad_credentials, method_payload ''login''])
                        ((setState ''busy'' (JBool False) ?s2)\<lparr>error := bad_credentials\<rparr>))"
    by (simp add: callOnError_def method_payload_def sample_auth_def recording_listener_def)
  from login_rejection_broadcast [OF reg cap call settles]
  have res: "login sample_auth [] ?s
      = (Returns (Resolved JUndefined),
         setState ''reported'' (JArr [bad_credentials, method_payload ''login''])
           ((setState ''busy'' (JBool False) ?s2)\<lparr>error := bad_credentials\<rparr>))"
    by (simp add: bus)
  have aw: "map_option fst (await (rejecting_login [] ?s)) = Some (Rejected bad_credentials)"
    by (simp add: await_def call)
  from reg cap aw show ?thesis
    unfolding res
    by (simp add: getState_def busy_def setState_def method_payload_def)
qed

subsection \<open>Scopes\<close>

text \<open>
  Claim C7. \<open>hasScope(scope)\<close> is \<open>undefined\<close> when there is no user or the claim read
  off the user at the configured path is falsy; when the claim is an array, it is
  whether \<open>scope\<close> is an element; when the claim is an object, it is the truthiness of
  the sub-claim read off it under \<open>scope\<close>.
\<close>

theorem hasScope_by_claim_shape:
  "(\<not> truthy (user s) \<longrightarrow> hasScope a scope s = Inr JUndefined)
   \<and> (truthy (user s) \<longrightarrow>
        (\<forall>v. getProp a (user s) (scopeKey (options a)) = Inr v \<longrightarrow> \<not> truthy v \<longrightarrow>
             hasScope a scope s = Inr JUndefined)
      \<and> (\<forall>xs. getProp a (user s) (scopeKey (options a)) = Inr (JArr xs) \<longrightarrow>
             hasScope a scope s = Inr (JBool (JStr scope \<in> set xs)))
      \<and> (\<forall>ps w. getProp a (user s) (scopeKey (options a)) = Inr (JObj ps) \<longrightarrow>
             getProp a (JObj ps) (JStr scope) = Inr w \<longrightarrow>
             hasScope a scope s = Inr (JBool (truthy w))))"
  by (simp add: hasScope_def userScopes_def)

theorem hasScope_by_claim_shape_witness:
  "\<not> truthy (user (initial_store (JStr ''/'') (JStr ''local'')))
   \<and> hasScope sample_auth ''admin'' (initial_store (JStr ''/'') (JStr ''local'')) = Inr JUndefined
   \<and> truthy (user (setUser (JObj [(''name'', JStr ''ann'')])
                 (initial_store (JStr ''/'') (JStr ''local''))))
   \<and> hasScope sample_auth ''admin''
         (setUser (JObj [(''name'', JStr ''ann'')]) (initial_store (JStr ''/'') (JStr ''local'')))
       = Inr JUndefined
   \<and> hasScope sample_auth ''admin''
         (setUser (JObj [(''scope'', JArr [JStr ''user'', JStr ''admin''])])
            (initial_store (JStr ''/'') (JStr ''local'')))
       = Inr (JBool True)
   \<and> hasScope sample_auth ''root''
         (setUser (JObj [(''scope'', JArr [JStr ''user'', JStr ''admin''])])
            (initial_store (JStr ''/'') (JStr ''local'')))
       = Inr (JBool False)
   \<and> hasScope sample_auth ''admin''
         (setUser (JObj [(''scope'', JObj [(''admin'', JBool True), (''root'', JBool False)])])
            (initial_store (JStr ''/'') (JStr ''local'')))
       = Inr (JBool True)
   \<and> hasScope sample_auth ''root''
         (setUser (JObj [(''scope'', JObj [(''admin'', JBool True), (''root'', JBool False)])])
            (initial_store (JStr ''/'') (JStr ''local'')))
       = Inr (JBool False)"
proof -
  let ?s0 = "initial_store (JStr ''/'') (JStr ''local'')"
  let ?u1 = "JObj [(''name'', JStr ''ann'')]"
  let ?u2 = "JObj [(''scope'', JArr [JStr ''user'', JStr ''admin''])]"
  let ?u3 = "JObj [(''scope'', JObj [(''admin'', JBool True), (''root'', JBool False)])]"
  have key: "scopeKey (options sample_auth) = JStr ''scope''"
    and gp: "getProp sample_auth = getProp_own"
    by (simp_all add: sample_auth_def sample_options_def)
  have user0: "user ?s0 = JNull"
    by (simp add: user_def initial_store_def)
  have user_set: "user (setUser u ?s0) = u" for u
    by (simp add: user_def setUser_def setState_def)
  have c0: "hasScope sample_auth ''admin'' ?s0 = Inr JUndefined"
    using hasScope_by_claim_shape [of ?s0 sample_auth "''admin''"] user0 by simp
  have g1: "getProp sample_auth ?u1 (JStr ''scope'') = Inr JUndefined"
    and g2: "getProp sample_auth ?u2 (JStr ''scope'') = Inr (JArr [JStr ''user'', JStr ''admin''])"
    and g3: "getProp sample_auth ?u3 (JStr ''scope'')
             = Inr (JObj [(''admin'', JBool True), (''root'', JBool False)])"
    and g4: "getProp sample_auth (JObj [(''admin'', JBool True), (''root'', JBool False)])
               (JStr ''admin'') = Inr (JBool True)"
    and g5: "getProp sample_auth (JObj [(''admin'', JBool True), (''root'', JBool False)])
               (JStr ''root'') = Inr (JBool False)"
    by (simp_all add: gp getProp_own_def)
  have c1: "hasScope sample_auth ''admin'' (setUser ?u1 ?s0) = Inr JUndefined"
    using hasScope_by_claim_shape [of "setUser ?u1 ?s0" sample_auth "''admin''"] g1
    by (simp add: user_set key)
  have c2: "hasScope sample_auth ''admin'' (setUser ?u2 ?s0) = Inr (JBool True)"
    using hasScope_by_claim_shape [of "setUser ?u2 ?s0" sample_auth "''admin''"] g2
    by (simp add: user_set key)
  have c3: "hasScope sample_auth ''root'' (setUser ?u2 ?s0) = Inr (JBool False)"
    using hasScope_by_claim_shape [of "setUser ?u2 ?s0" sample_auth "''root''"] g2
    by (simp add: user_set key)
  have c4: "hasScope sample_auth ''admin'' (setUser ?u3 ?s0) = Inr (JBool True)"
    using hasScope_by_claim_shape [of "setUser ?u3 ?s0" sample_auth "''admin''"] g3 g4
    by (simp add: user_set key)
  have c5: "hasScope sample_auth ''root'' (setUser ?u3 ?s0) = Inr (JBool False)"
    using hasScope_by_claim_shape [of "setUser ?u3 ?s0" sample_auth "''root''"] g3 g5
    by (simp add: user_set key)
  from c0 c1 c2 c3 c4 c5 user0 show ?thesis
    by (simp add: user_set)
qed

subsection \<open>The session invariant\<close>

lemma inv_setState:
  "k \<noteq> ''user'' \<Longrightarrow> k \<noteq> ''loggedIn'' \<Longrightarrow> session_inv (setState k v s) = session_inv s"
  by (simp add: session_inv_def loggedIn_def user_def setState_def)

lemma inv_updates [simp]:
  "session_inv (setUniversal k v s) = session_inv s"
  "session_inv (s\<lparr>error := e\<rparr>) = session_inv s"
  "session_inv (s\<lparr>nav := n\<rparr>) = session_inv s"
  "session_inv (s\<lparr>requests := r\<rparr>) = session_inv s"
  "session_inv (s\<lparr>watching := w\<rparr>) = session_inv s"
  by (simp_all add: session_inv_def loggedIn_def user_def setUniversal_def)

lemma inv_setUser [simp]: "session_inv (setUser u s)"
  by (simp add: session_inv_def loggedIn_def user_def setUser_def setState_def)

lemma inv_setToken [simp]: "session_inv (setToken a strat tok s) = session_inv s"
  by (simp add: setToken_def)

lemma inv_syncUniversal: "session_inv s \<Longrightarrow> session_inv (snd (syncUniversal a k d s))"
  by (simp add: syncUniversal_def Let_def)

lemma inv_run_listeners:
  assumes "\<And>fn e p s. fn \<in> set fns \<Longrightarrow> session_inv s \<Longrightarrow> session_inv (snd (fn e p s))"
    and "session_inv s"
  shows "session_inv (snd (run_listeners fns e p s))"
  using assms
proof (induction fns arbitrary: s)
  case Nil
  then show ?case by simp
next
  case (Cons fn fns)
  have step: "session_inv (snd (fn e p s))"
    using Cons.prems by simp
  show ?case
  proof (cases "fn e p s")
    case (Pair r s')
    with step have "session_inv s'" by simp
    with Cons Pair show ?thesis
      by (cases r) simp_all
  qed
qed

lemma inv_callOnError:
  assumes "foreign_keeps a" and "session_inv s"
  shows "session_inv (snd (callOnError a e p s))"
  unfolding callOnError_def
  using assms by (intro inv_run_listeners) (auto simp: foreign_keeps_def)

lemma inv_catch_error:
  assumes "foreign_keeps a" and "session_inv s"
  shows "session_inv (snd (catch_error a m e s))"
  using inv_callOnError [OF assms, of e "method_payload m"]
  by (auto simp: catch_error_def split: prod.splits option.splits)

lemma inv_resolve_catch:
  assumes "foreign_keeps a" and "call_keeps f" and "session_inv s"
  shows "session_inv (snd (resolve_catch a m (f s)))"
proof (cases "f s")
  case (Pair i s1)
  from assms(2,3) Pair have s1: "session_inv s1"
    by (auto simp: call_keeps_def)
  show ?thesis
  proof (cases i)
    case (Threw x)
    with Pair s1 show ?thesis by (simp add: resolve_catch_def)
  next
    case (Promise k)
    with assms(2,3) Pair s1 have k: "session_inv (snd (k s1))"
      by (auto simp: call_keeps_def)
    show ?thesis
    proof (cases "k s1")
      case (Pair out s2)
      with k have s2: "session_inv s2" by simp
      show ?thesis
      proof (cases out)
        case (Resolved v)
        with Pair Promise \<open>f s = (i, s1)\<close> s2 show ?thesis
          by (simp add: resolve_catch_def)
      next
        case (Rejected x)
        with inv_catch_error [OF assms(1) s2, of m x] Pair Promise \<open>f s = (i, s1)\<close>
        show ?thesis
          by (auto simp: resolve_catch_def split: prod.splits)
      qed
    qed
  qed
qed

lemma hook_keeps:
  assumes "foreign_keeps a" and "strategies a n = Some st" and "h \<in> hooks_of st"
  shows "call_keeps (h args)"
  using assms by (auto simp: foreign_keeps_def)

lemma inv_fetchUser:
  assumes "foreign_keeps a" and "session_inv s"
  shows "session_inv (snd (fetchUser a args s))"
proof (cases "strategy a s")
  case None
  with assms show ?thesis by (simp add: fetchUser_def)
next
  case (Some st)
  show ?thesis
  proof (cases "fetchUser_hook st")
    case None
    with Some assms show ?thesis by (simp add: fetchUser_def)
  next
    case (Some h)
    with \<open>strategy a s = Some st\<close> have "call_keeps (h args)"
      using hook_keeps [OF assms(1), of _ st h args] by (simp add: strategy_def hooks_of_def)
    from inv_resolve_catch [OF assms(1) this assms(2)] Some \<open>strategy a s = Some st\<close>
    show ?thesis by (simp add: fetchUser_def)
  qed
qed

lemma inv_fetchUserOnce:
  assumes "foreign_keeps a" and "session_inv s"
  shows "session_inv (snd (fetchUserOnce a args s))"
  using inv_fetchUser [OF assms] assms(2) by (simp add: fetchUserOnce_def)

lemma inv_mounted:
  assumes "foreign_keeps a" and "session_inv s"
  shows "session_inv (snd (mounted a args s))"
proof (cases "strategy a s")
  case None
  with assms show ?thesis by (simp add: mounted_def)
next
  case (Some st)
  show ?thesis
  proof (cases "mounted_hook st")
    case None
    with Some inv_fetchUserOnce [OF assms] show ?thesis by (simp add: mounted_def)
  next
    case (Some h)
    with \<open>strategy a s = Some st\<close> have "call_keeps (h args)"
      using hook_keeps [OF assms(1), of _ st h args] by (simp add: strategy_def hooks_of_def)
    from inv_resolve_catch [OF assms(1) this assms(2)] Some \<open>strategy a s = Some st\<close>
    show ?thesis by (simp add: mounted_def)
  qed
qed

lemma inv_setStrategy:
  assumes "foreign_keeps a" and "session_inv s"
  shows "session_inv (snd (setStrategy a name s))"
  using inv_mounted [OF assms(1), of "setUniversal ''strategy'' (JStr name) s" "[]"] assms(2)
  by (simp add: setStrategy_def)

lemma inv_reset:
  assumes "foreign_keeps a" and "session_inv s"
  shows "session_inv (snd (reset a args s))"
proof (cases "strategy a s")
  case None
  with assms show ?thesis by (simp add: reset_def)
next
  case (Some st)
  show ?thesis
  proof (cases "reset_hook st")
    case None
    with Some show ?thesis by (simp add: reset_def Let_def)
  next
    case (Some h)
    with \<open>strategy a s = Some st\<close> have "call_keeps (h args)"
      using hook_keeps [OF assms(1), of _ st h args] by (simp add: strategy_def hooks_of_def)
    from inv_resolve_catch [OF assms(1) this assms(2)] Some \<open>strategy a s = Some st\<close>
    show ?thesis by (simp add: reset_def)
  qed
qed

lemma inv_logout:
  assumes "foreign_keeps a" and "session_inv s"
  shows "session_inv (snd (logout a args s))"
proof (cases "strategy a s")
  case None
  with assms show ?thesis by (simp add: logout_def)
next
  case (Some st)
  show ?thesis
  proof (cases "logout_hook st")
    case None
    with Some inv_reset [OF assms, of "[]"] show ?thesis
      by (auto simp: logout_def split: prod.splits result.splits)
  next
    case (Some h)
    with \<open>strategy a s = Some st\<close> have "call_keeps (h args)"
      using hook_keeps [OF assms(1), of _ st h args] by (simp add: strategy_def hooks_of_def)
    from inv_resolve_catch [OF assms(1) this assms(2)] Some \<open>strategy a s = Some st\<close>
    show ?thesis by (simp add: logout_def)
  qed
qed

lemma call_keepsD1:
  "call_keeps f \<Longrightarrow> session_inv s \<Longrightarrow> f s = (i, s1) \<Longrightarrow> session_inv s1"
  by (auto simp: call_keeps_def)

lemma call_keepsD2:
  "call_keeps f \<Longrightarrow> session_inv s \<Longrightarrow> f s = (Promise k, s1) \<Longrightarrow> session_inv t
   \<Longrightarrow> session_inv (snd (k t))"
  by (auto simp: call_keeps_def)

lemma inv_wrapLogin:
  assumes "\<And>t. session_inv t \<Longrightarrow> session_inv (snd (k t))" and "session_inv s"
  shows "session_inv (snd (wrapLogin k s))"
proof -
  let ?t = "(setState ''busy'' (JBool True) s)\<lparr>error := JNull\<rparr>"
  from assms(2) have "session_inv ?t"
    by (simp add: inv_setState)
  from assms(1) [OF this] show ?thesis
    by (cases "k ?t") (auto simp: wrapLogin_def inv_setState split: outcome.splits)
qed

lemma inv_login:
  assumes "foreign_keeps a" and "session_inv s"
  shows "session_inv (snd (login a args s))"
proof (cases "strategy a s")
  case None
  with assms show ?thesis by (simp add: login_def)
next
  case (Some st)
  show ?thesis
  proof (cases "login_hook st")
    case None
    with Some assms show ?thesis by (simp add: login_def)
  next
    case (Some h)
    with \<open>strategy a s = Some st\<close> have keeps: "call_keeps (h args)"
      using hook_keeps [OF assms(1), of _ st h args] by (simp add: strategy_def hooks_of_def)
    show ?thesis
    proof (cases "h args s")
      case (Pair i s1)
      from keeps assms(2) Pair have s1: "session_inv s1"
        by (auto simp: call_keeps_def)
      show ?thesis
      proof (cases i)
        case (Threw x)
        with Pair Some \<open>strategy a s = Some st\<close> s1 show ?thesis
          by (simp add: login_def)
      next
        case (Promise k)
        from keeps assms(2) Pair Promise
        have "\<And>t. session_inv t \<Longrightarrow> session_inv (snd (k t))"
          by (auto simp: call_keeps_def)
        from inv_wrapLogin [OF this s1] have w: "session_inv (snd (wrapLogin k s1))" .
        show ?thesis
        proof (cases "wrapLogin k s1")
          case (Pair out s2)
          with w have s2: "session_inv s2" by simp
          show ?thesis
          proof (cases out)
            case (Resolved v)
            with Pair Promise \<open>h args s = (i, s1)\<close> Some \<open>strategy a s = Some st\<close> s2
            show ?thesis by (simp add: login_def)
          next
            case (Rejected e)
            with inv_catch_error [OF assms(1) s2, of "''login''" e]
              Pair Promise \<open>h args s = (i, s1)\<close> Some \<open>strategy a s = Some st\<close>
            show ?thesis by (auto simp: login_def split: prod.splits)
          qed
        qed
      qed
    qed
  qed
qed

lemma inv_loginWith:
  assumes "foreign_keeps a" and "session_inv s"
  shows "session_inv (snd (loginWith a name args s))"
proof (cases "setStrategy a name s")
  case (Pair r s1)
  with inv_setStrategy [OF assms, of name] have s1: "session_inv s1" by simp
  from inv_login [OF assms(1) s1, of args] Pair s1 show ?thesis
    by (auto simp: loginWith_def split: result.splits outcome.splits prod.splits)
qed

lemma inv_request_catch:
  assumes "foreign_keeps a" and "session_inv s"
  shows "session_inv (snd (request_catch a x s))"
  using inv_callOnError [OF assms, of x "method_payload ''request''"]
  by (auto simp: request_catch_def split: prod.splits option.splits)

lemma inv_request:
  assumes "foreign_keeps a" and "session_inv s"
  shows "session_inv (snd (request a endpoint defaults s))"
proof -
  define ep where "ep = (if typeof_object defaults then JObj (object_assign [defaults, endpoint])
                         else endpoint)"
  let ?t = "s\<lparr>requests := requests s @ [ep]\<rparr>"
  from assms(1) have keeps: "call_keeps (axios_request a ep)"
    by (simp add: foreign_keeps_def)
  from assms(2) have t: "session_inv ?t" by simp
  show ?thesis
  proof (cases "axios_request a ep ?t")
    case (Pair i s1)
    from call_keepsD1 [OF keeps t Pair] have s1: "session_inv s1" .
    show ?thesis
    proof (cases i)
      case (Threw x)
      with Pair s1 show ?thesis
        by (simp add: request_def Let_def ep_def [symmetric])
    next
      case (Promise k)
      from call_keepsD2 [OF keeps t Pair [unfolded Promise] s1]
      have k: "session_inv (snd (k s1))" .
      show ?thesis
      proof (cases "k s1")
        case (Pair out s2)
        with k have s2: "session_inv s2" by simp
        from inv_request_catch [OF assms(1) s2]
        have "\<And>x. session_inv (snd (request_catch a x s2))" .
        with Pair Promise \<open>axios_request a ep ?t = (i, s1)\<close> s2 show ?thesis
          by (auto simp: request_def Let_def ep_def [symmetric] split: outcome.splits sum.splits)
      qed
    qed
  qed
qed

lemma inv_requestWith:
  assumes "foreign_keeps a" and "session_inv s"
  shows "session_inv (snd (requestWith a strat endpoint defaults s))"
  using inv_request [OF assms] assms(2)
  by (auto simp: requestWith_def Let_def split: sum.splits)

lemma state_apply_rewrites: "state (snd (apply_rewrites a name from to s)) = state s"
  by (simp add: apply_rewrites_def Let_def setUniversal_def)

lemma state_redirect: "state (redirect a name noRouter s) = state s"
proof (cases "redirect_map (options a)")
  case None
  then show ?thesis by (simp add: redirect_def)
next
  case (Some dests)
  show ?thesis
  proof (cases "apply_rewrites a name (redirect_from a s) (dests name) s")
    case (Pair to' s')
    with state_apply_rewrites [of a name "redirect_from a s" "dests name" s]
    have "state s' = state s" by simp
    with Some Pair show ?thesis
      by (simp add: redirect_def Let_def navigate_def)
  qed
qed

lemma inv_redirect [simp]: "session_inv (redirect a name noRouter s) = session_inv s"
  by (simp add: session_inv_def loggedIn_def user_def state_redirect)

lemma inv_loggedIn_changed [simp]: "session_inv (loggedIn_changed a v s) = session_inv s"
  by (simp add: loggedIn_changed_def)

lemma inv_init:
  assumes "foreign_keeps a" and "session_inv s"
  shows "session_inv (snd (init a s))"
proof -
  let ?s1 = "if browser a then s\<lparr>watching := True\<rparr> else s"
  from assms(2) have "session_inv ?s1" by simp
  then have "session_inv (snd (syncUniversal a ''strategy'' (defaultStrategy (options a)) ?s1))"
    by (rule inv_syncUniversal)
  from inv_mounted [OF assms(1) this] show ?thesis
    by (simp add: init_def Let_def)
qed

lemma inv_syncToken:
  "session_inv s \<Longrightarrow> session_inv (snd (syncToken a strat s))"
  by (simp add: syncToken_def inv_syncUniversal)

lemma setUser_fields:
  "loggedIn (setUser u s) = JBool (truthy u)" "user (setUser u s) = u"
  by (simp_all add: loggedIn_def user_def setUser_def setState_def)

lemma truthy_object: "typeof_object u \<Longrightarrow> truthy u = (u \<noteq> JNull)"
  by (cases u) simp_all

lemma foreign_keeps_sample: "foreign_keeps sample_auth"
  by (auto simp: foreign_keeps_def sample_auth_def hooks_of_def local_scheme_def
      social_scheme_def call_keeps_def rejecting_login_def counting_mounted_def axios_ok_def
      recording_listener_def inv_setState split: if_splits)

text \<open>
  Claim C2, as stated, fails: \<open>setUser\<close> stores \<open>Boolean(user)\<close> in \<open>loggedIn\<close>, so
  a falsy user other than \<open>null\<close> (\<open>false\<close>, the empty string, \<open>0\<close>) leaves
  \<open>loggedIn\<close> false although the user is not \<open>null\<close>.
\<close>

theorem setUser_falsy_not_null:
  "loggedIn (setUser (JBool False) (initial_store (JStr ''/'') (JStr ''local''))) = JBool False
   \<and> user (setUser (JBool False) (initial_store (JStr ''/'') (JStr ''local''))) = JBool False
   \<and> loggedIn (setUser (JBool False) (initial_store (JStr ''/'') (JStr ''local'')))
       \<noteq> JBool (JBool False \<noteq> JNull)
   \<and> loggedIn (setUser (JStr []) (initial_store (JStr ''/'') (JStr ''local'')))
       \<noteq> JBool (JStr [] \<noteq> JNull)
   \<and> loggedIn (setUser (JNum 0) (initial_store (JStr ''/'') (JStr ''local'')))
       \<noteq> JBool (JNum 0 \<noteq> JNull)"
  by (simp add: loggedIn_def user_def setUser_def setState_def)

text \<open>
  Claim C2, amended. After \<open>setUser(u)\<close> the session has \<open>user = u\<close> and
  \<open>loggedIn = Boolean(u)\<close>; for \<open>null\<close> and for every object \<open>u\<close> this is
  \<open>loggedIn = (u != null)\<close>. The invariant \<open>loggedIn = Boolean(user)\<close> holds after
  \<open>setUser\<close>, and every operation of the controller keeps it, provided the strategy
  hooks, the transport and the error listeners keep it.
\<close>

theorem setUser_loggedIn_truthy:
  "loggedIn (setUser u s) = JBool (truthy u)
   \<and> user (setUser u s) = u
   \<and> (typeof_object u \<longrightarrow> loggedIn (setUser u s) = JBool (u \<noteq> JNull))
   \<and> session_inv (setUser u s)
   \<and> (foreign_keeps a \<longrightarrow> session_inv s \<longrightarrow>
        session_inv (snd (init a s))
      \<and> session_inv (snd (setStrategy a name s))
      \<and> session_inv (snd (mounted a args s))
      \<and> session_inv (snd (loginWith a name args s))
      \<and> session_inv (snd (login a args s))
      \<and> session_inv (snd (fetchUser a args s))
      \<and> session_inv (snd (fetchUserOnce a args s))
      \<and> session_inv (snd (logout a args s))
      \<and> session_inv (snd (reset a args s))
      \<and> session_inv (setToken a strat tok s)
      \<and> session_inv (snd (syncToken a strat s))
      \<and> session_inv (snd (request a endpoint defaults s))
      \<and> session_inv (snd (requestWith a strat endpoint defaults s))
      \<and> session_inv (snd (callOnError a e p s))
      \<and> session_inv (redirect a event noRouter s)
      \<and> session_inv (loggedIn_changed a v s))"
proof -
  have "loggedIn (setUser u s) = JBool (u \<noteq> JNull)" if "typeof_object u"
    using that by (simp add: setUser_fields truthy_object)
  moreover have "session_inv (snd (init a s))" "session_inv (snd (setStrategy a name s))"
    "session_inv (snd (mounted a args s))" "session_inv (snd (loginWith a name args s))"
    "session_inv (snd (login a args s))" "session_inv (snd (fetchUser a args s))"
    "session_inv (snd (fetchUserOnce a args s))" "session_inv (snd (logout a args s))"
    "session_inv (snd (reset a args s))" "session_inv (snd (syncToken a strat s))"
    "session_inv (snd (request a endpoint defaults s))"
    "session_inv (snd (requestWith a strat endpoint defaults s))"
    "session_inv (snd (callOnError a e p s))"
    if "foreign_keeps a" "session_inv s"
    using that
    by (simp_all add: inv_init inv_setStrategy inv_mounted inv_loginWith inv_login
        inv_fetchUser inv_fetchUserOnce inv_logout inv_reset inv_syncToken inv_request
        inv_requestWith inv_callOnError)
  ultimately show ?thesis
    by (simp add: setUser_fields)
qed

theorem setUser_loggedIn_truthy_witness:
  "typeof_object (JObj [(''name'', JStr ''ann'')])
   \<and> foreign_keeps sample_auth
   \<and> session_inv (initial_store (JStr ''/'') (JStr ''local''))
   \<and> loggedIn (setUser (JObj [(''name'', JStr ''ann'')])
        (initial_store (JStr ''/'') (JStr ''local''))) = JBool True
   \<and> loggedIn (setUser JNull (initial_store (JStr ''/'') (JStr ''local''))) = JBool False
   \<and> session_inv (snd (login sample_auth [] (initial_store (JStr ''/'') (JStr ''local''))))
   \<and> session_inv (snd (logout sample_auth [] (initial_store (JStr ''/'') (JStr ''local''))))"
proof -
  let ?s = "initial_store (JStr ''/'') (JStr ''local'')"
  let ?u = "JObj [(''name'', JStr ''ann'')]"
  have obj: "typeof_object ?u" "typeof_object JNull"
    by simp_all
  have inv: "session_inv ?s"
    by (simp add: session_inv_def loggedIn_def user_def initial_store_def)
  note keeps = foreign_keeps_sample
  from setUser_loggedIn_truthy [of ?u ?s sample_auth _ "[]"] obj keeps inv
  have a: "loggedIn (setUser ?u ?s) = JBool True"
    and b: "session_inv (snd (login sample_auth [] ?s))"
    and c: "session_inv (snd (logout sample_auth [] ?s))"
    by simp_all
  from setUser_loggedIn_truthy [of JNull ?s] obj
  have d: "loggedIn (setUser JNull ?s) = JBool False"
    by simp
  from obj keeps inv a b c d show ?thesis
    by simp
qed

end
